theory Spec2Isabelle
  imports Main "HOL-Library.Word"
begin

section \<open>The Index chain parser: \<^verbatim>\<open>bchain/coins/indexchain/indexchainparser.go\<close>\<close>

text \<open>
  A shallow embedding of the parser. Go values are HOL values, a \<^verbatim>\<open>(T, error)\<close> return is a
  sum whose left side is the failure, a run-time panic is a failure of its own kind, the
  \<^verbatim>\<open>bytes.Reader\<close> a function reads from is the list of bytes it has not read yet, and a
  struct that is updated in place is passed in and returned.
\<close>

subsection \<open>Constants\<close>

type_synonym byte = "8 word"

definition OpZeroCoinMint :: byte where "OpZeroCoinMint = 0xc1"
definition OpZeroCoinSpend :: byte where "OpZeroCoinSpend = 0xc2"
definition OpSigmaMint :: byte where "OpSigmaMint = 0xc3"
definition OpSigmaSpend :: byte where "OpSigmaSpend = 0xc4"

definition SpendTxID :: string where
  "SpendTxID = ''0000000000000000000000000000000000000000000000000000000000000000''"

subsection \<open>Errors and panics\<close>

text \<open>
  The error values the file can return: \<^verbatim>\<open>io.EOF\<close> and \<^verbatim>\<open>io.ErrUnexpectedEOF\<close> of a short
  read, the \<^verbatim>\<open>wire.MessageError\<close> of a varint that is not canonical, and whatever error a
  collaborator (the transaction decoder, the JSON decoder, the amount parser, the script
  resolver) reports, kept as its message. A failure is a returned error or a run-time panic.
\<close>

datatype error = EOF | ErrUnexpectedEOF | MessageError string | OtherError string

datatype failure = Err error | Panic string

subsection \<open>Data model\<close>

text \<open>
  Modelled from the spec: the struct declarations \<^verbatim>\<open>bchain.Vin\<close>, \<^verbatim>\<open>bchain.Vout\<close>,
  \<^verbatim>\<open>bchain.Tx\<close>, \<^verbatim>\<open>bchain.BlockHeader\<close> and \<^verbatim>\<open>bchain.Block\<close> (package \<^verbatim>\<open>bchain\<close>) are missing
  from the sources. The records hold the fields the parser reads or writes, under the
  names it uses, and the fields the data model of the spec lists (an input's script data and
  addresses, an output's raw script, a transaction's id, version and lock time). The fields
  of a transaction carry the prefix \<^verbatim>\<open>Tx_\<close>, since \<^verbatim>\<open>Txid\<close> and \<^verbatim>\<open>Vout\<close> are fields of an
  input too. \<^verbatim>\<open>uint32\<close> is a 32-bit word, \<^verbatim>\<open>big.Int\<close> an integer, \<^verbatim>\<open>json.Number\<close> a string;
  \<^verbatim>\<open>int\<close> and \<^verbatim>\<open>int64\<close> hold a length and a 32-bit time here and are integers.
\<close>

record Vin =
  Coinbase :: string
  Txid :: string
  Vout :: "32 word"
  ScriptSig :: string
  Sequence :: "32 word"
  Addresses :: "string list"

record Vout =
  ValueSat :: int
  JsonValue :: string
  ScriptPubKey :: string

record Tx =
  Tx_Txid :: string
  Tx_Version :: "32 word"
  Tx_LockTime :: "32 word"
  Tx_Vin :: "Vin list"
  Tx_Vout :: "Vout list"

record Block =
  Size :: int
  Time :: int
  Txs :: "Tx list"

subsection \<open>The transaction normalizer: \<^verbatim>\<open>parseIndexTx\<close>\<close>

text \<open>
  The body of the loop, on the input \<^verbatim>\<open>vin = &tx.Vin[i]\<close>: the four assignments in the
  order of the source, each on the result of the one before.
\<close>

definition parseIndexTx_body :: "Vin \<Rightarrow> Vin" where
  "parseIndexTx_body vin =
     (if Txid vin = SpendTxID then
        (let vin1 = vin\<lparr>Coinbase := Txid vin\<rparr>;
             vin2 = vin1\<lparr>Txid := []\<rparr>;
             vin3 = vin2\<lparr>Sequence := 0\<rparr>;
             vin4 = vin3\<lparr>Vout := 0\<rparr>
         in vin4)
      else vin)"

text \<open>\<^verbatim>\<open>for i := range tx.Vin\<close>: the inputs are rewritten in place, by index.\<close>

function parseIndexTx_loop :: "nat \<Rightarrow> Vin list \<Rightarrow> Vin list" where
  "parseIndexTx_loop i vins =
     (if i < length vins
      then parseIndexTx_loop (Suc i) (vins[i := parseIndexTx_body (vins ! i)])
      else vins)"
  by pat_completeness auto
termination
  by (relation "measure (\<lambda>(i, vins). length vins - i)") auto

declare parseIndexTx_loop.simps [simp del]

text \<open>The transaction after the call, and the error the call returns (always \<^verbatim>\<open>nil\<close>).\<close>

definition parseIndexTx :: "Tx \<Rightarrow> Tx \<times> error option" where
  "parseIndexTx tx = (tx\<lparr>Tx_Vin := parseIndexTx_loop 0 (Tx_Vin tx)\<rparr>, None)"

subsection \<open>The wire format: readers of package \<^verbatim>\<open>wire\<close> and \<^verbatim>\<open>io.ReadFull\<close>\<close>

text \<open>
  Modelled from the spec: \<^verbatim>\<open>io.ReadFull\<close>, \<^verbatim>\<open>wire.ReadVarInt\<close> and
  \<^verbatim>\<open>wire.BlockHeader.Deserialize\<close> are library functions, missing from the sources. They
  follow the generic Bitcoin wire format the spec refers to: a header of 80 bytes (version,
  previous-block hash, merkle root, time, bits, nonce; integers little-endian) and the
  compact-size integer of one, three, five or nine bytes, refused when a shorter form would
  have held the value.

  \<^verbatim>\<open>io.ReadFull(r, buf)\<close> on a reader holding \<open>r\<close>, for a buffer of \<open>n\<close> bytes: nothing is
  read for an empty buffer; \<^verbatim>\<open>io.EOF\<close> when no byte is left, \<^verbatim>\<open>io.ErrUnexpectedEOF\<close> when
  fewer than \<open>n\<close> are; otherwise the \<open>n\<close> bytes read and the reader after them.
\<close>

definition ReadFull :: "byte list \<Rightarrow> nat \<Rightarrow> failure + (byte list \<times> byte list)" where
  "ReadFull r n =
     (if n = 0 then Inr ([], r)
      else if r = [] then Inl (Err EOF)
      else if length r < n then Inl (Err ErrUnexpectedEOF)
      else Inr (take n r, drop n r))"

text \<open>The unsigned integer a little-endian byte sequence encodes.\<close>

definition le_nat :: "byte list \<Rightarrow> nat" where
  "le_nat bs = foldr (\<lambda>b n. unat b + 256 * n) bs 0"

definition Uint8 :: "byte list \<Rightarrow> failure + (8 word \<times> byte list)" where
  "Uint8 r = (case ReadFull r 1 of Inl e \<Rightarrow> Inl e
              | Inr (buf, r') \<Rightarrow> Inr (word_of_nat (le_nat buf), r'))"

definition Uint16 :: "byte list \<Rightarrow> failure + (16 word \<times> byte list)" where
  "Uint16 r = (case ReadFull r 2 of Inl e \<Rightarrow> Inl e
               | Inr (buf, r') \<Rightarrow> Inr (word_of_nat (le_nat buf), r'))"

definition Uint32 :: "byte list \<Rightarrow> failure + (32 word \<times> byte list)" where
  "Uint32 r = (case ReadFull r 4 of Inl e \<Rightarrow> Inl e
               | Inr (buf, r') \<Rightarrow> Inr (word_of_nat (le_nat buf), r'))"

definition Uint64 :: "byte list \<Rightarrow> failure + (64 word \<times> byte list)" where
  "Uint64 r = (case ReadFull r 8 of Inl e \<Rightarrow> Inl e
               | Inr (buf, r') \<Rightarrow> Inr (word_of_nat (le_nat buf), r'))"

text \<open>
  \<^verbatim>\<open>wire.ReadVarInt(r, 0)\<close>: the discriminant byte, then the value it announces. The message
  of the error for a value that is not canonical is left out.
\<close>

definition ReadVarInt :: "byte list \<Rightarrow> failure + (64 word \<times> byte list)" where
  "ReadVarInt r =
     (case Uint8 r of Inl e \<Rightarrow> Inl e
      | Inr (discriminant, r1) \<Rightarrow>
          if discriminant = 0xff then
            (case Uint64 r1 of Inl e \<Rightarrow> Inl e
             | Inr (sv, r2) \<Rightarrow>
                 if sv < 0x100000000 then Inl (Err (MessageError ''ReadVarInt''))
                 else Inr (sv, r2))
          else if discriminant = 0xfe then
            (case Uint32 r1 of Inl e \<Rightarrow> Inl e
             | Inr (sv, r2) \<Rightarrow>
                 if (ucast sv :: 64 word) < 0x10000 then Inl (Err (MessageError ''ReadVarInt''))
                 else Inr (ucast sv, r2))
          else if discriminant = 0xfd then
            (case Uint16 r1 of Inl e \<Rightarrow> Inl e
             | Inr (sv, r2) \<Rightarrow>
                 if (ucast sv :: 64 word) < 0xfd then Inl (Err (MessageError ''ReadVarInt''))
                 else Inr (ucast sv, r2))
          else Inr (ucast discriminant, r1))"

text \<open>
  \<^verbatim>\<open>wire.BlockHeader\<close>, with its time as seconds since the epoch (what \<^verbatim>\<open>Timestamp.Unix()\<close>
  returns), and \<^verbatim>\<open>Deserialize\<close>: the six fields, in order, each error returned at once.
\<close>

record wire_BlockHeader =
  Version :: "32 word"
  PrevBlock :: "byte list"
  MerkleRoot :: "byte list"
  Timestamp :: int
  Bits :: "32 word"
  Nonce :: "32 word"

definition Deserialize :: "byte list \<Rightarrow> failure + (wire_BlockHeader \<times> byte list)" where
  "Deserialize r =
     (case Uint32 r of Inl e \<Rightarrow> Inl e
      | Inr (version, r1) \<Rightarrow>
     (case ReadFull r1 32 of Inl e \<Rightarrow> Inl e
      | Inr (prev, r2) \<Rightarrow>
     (case ReadFull r2 32 of Inl e \<Rightarrow> Inl e
      | Inr (merkle, r3) \<Rightarrow>
     (case Uint32 r3 of Inl e \<Rightarrow> Inl e
      | Inr (time, r4) \<Rightarrow>
     (case Uint32 r4 of Inl e \<Rightarrow> Inl e
      | Inr (bits, r5) \<Rightarrow>
     (case Uint32 r5 of Inl e \<Rightarrow> Inl e
      | Inr (nonce, r6) \<Rightarrow>
          Inr (\<lparr>Version = version, PrevBlock = prev, MerkleRoot = merkle,
                Timestamp = uint time, Bits = bits, Nonce = nonce\<rparr>, r6)))))))"

subsection \<open>Allocation: \<^verbatim>\<open>make\<close>\<close>

text \<open>
  \<^verbatim>\<open>make([]T, n)\<close> panics (\<^verbatim>\<open>makeslice: len out of range\<close>) when \<open>n\<close> elements of the size of
  \<^verbatim>\<open>T\<close> are more than the runtime can allocate; for a \<^verbatim>\<open>uint64\<close> length that covers every
  length outside \<^verbatim>\<open>int\<close>. \<^verbatim>\<open>maxAlloc\<close> is the limit of the Go runtime on 64-bit Linux. A
  machine that runs out of memory below the limit is outside the model.
\<close>

definition maxAlloc :: nat where
  "maxAlloc = 2 ^ 48"

definition makeslice_panics :: "nat \<Rightarrow> nat \<Rightarrow> bool" where
  "makeslice_panics elem_size len \<longleftrightarrow> maxAlloc < elem_size * len"

definition panicmakeslicelen :: failure where
  "panicmakeslicelen = Panic ''runtime error: makeslice: len out of range''"

subsection \<open>The header decoder: \<^verbatim>\<open>parseBlockHeader\<close>\<close>

text \<open>
  The header and the reader after it. The signature of a proof-of-stake block (nonce 0) is
  read into a buffer of the announced length and dropped.
\<close>

definition parseBlockHeader :: "byte list \<Rightarrow> failure + (wire_BlockHeader \<times> byte list)" where
  "parseBlockHeader r =
     (case Deserialize r of Inl err \<Rightarrow> Inl err
      | Inr (h, r1) \<Rightarrow>
          if Nonce h = 0 then
            (case ReadVarInt r1 of Inl err \<Rightarrow> Inl err
             | Inr (sigLength, r2) \<Rightarrow>
                 if makeslice_panics 1 (unat sigLength) then Inl panicmakeslicelen
                 else
                   (case ReadFull r2 (unat sigLength) of Inl err \<Rightarrow> Inl err
                    | Inr (sigBuf, r3) \<Rightarrow> Inr (h, r3)))
          else Inr (h, r1))"

subsection \<open>The parser and its collaborators\<close>

text \<open>
  \<^verbatim>\<open>IndexChainParser\<close> embeds \<^verbatim>\<open>*btc.BitcoinParser\<close>, whose code is not in this file. The
  three methods of it the file calls are the fields of the parser: any functions of these
  types. \<open>'m\<close> is the type \<^verbatim>\<open>wire.MsgTx\<close>. The script resolver returns addresses, the
  searchable flag and an error (\<^verbatim>\<open>nil\<close> is \<open>None\<close>).
\<close>

record 'm IndexChainParser =
  TxFromMsgTx :: "'m \<Rightarrow> bool \<Rightarrow> Tx"
  OutputScriptToAddressesFunc :: "byte list \<Rightarrow> string list \<times> bool \<times> error option"
  AmountToBigInt :: "string \<Rightarrow> failure + int"

subsection \<open>The address resolver: \<^verbatim>\<open>GetAddressesFromAddrDesc\<close>\<close>

definition GetAddressesFromAddrDesc ::
    "'m IndexChainParser \<Rightarrow> byte list \<Rightarrow> string list \<times> bool \<times> error option" where
  "GetAddressesFromAddrDesc p addrDesc =
     (if length addrDesc > 0 \<and> addrDesc ! 0 = OpZeroCoinMint then ([''Zeromint''], False, None)
      else if length addrDesc > 0 \<and> addrDesc ! 0 = OpZeroCoinSpend then ([''Zerospend''], False, None)
      else if length addrDesc > 0 \<and> addrDesc ! 0 = OpSigmaMint then ([''Sigmamint''], False, None)
      else if length addrDesc > 0 \<and> addrDesc ! 0 = OpSigmaSpend then ([''Sigmaspend''], False, None)
      else OutputScriptToAddressesFunc p addrDesc)"

subsection \<open>The block assembler: \<^verbatim>\<open>ParseBlock\<close>\<close>

text \<open>The zero value of \<^verbatim>\<open>bchain.Tx\<close>, which \<^verbatim>\<open>make\<close> fills the slice with.\<close>

definition zero_Tx :: Tx where
  "zero_Tx = \<lparr>Tx_Txid = [], Tx_Version = 0, Tx_LockTime = 0, Tx_Vin = [], Tx_Vout = []\<rparr>"

text \<open>
  The loop \<^verbatim>\<open>for i := uint64(0); i < ntx; i++\<close>. \<open>BtcDecode\<close> is the transaction decoder
  \<^verbatim>\<open>wire.MsgTx.BtcDecode(reader, 0, wire.WitnessEncoding)\<close> of the library: any function
  from the unread bytes to a failure, or to the message and the number of bytes it read. It
  gets the reader as an \<^verbatim>\<open>io.Reader\<close>, which can only be read forward: the reader after the
  call has these bytes dropped.
\<close>

function ParseBlock_loop ::
    "'m IndexChainParser \<Rightarrow> (byte list \<Rightarrow> failure + ('m \<times> nat)) \<Rightarrow> nat \<Rightarrow> nat \<Rightarrow>
     byte list \<Rightarrow> Tx list \<Rightarrow> failure + (Tx list \<times> byte list)" where
  "ParseBlock_loop p BtcDecode ntx i reader txs =
     (if i < ntx then
        (case BtcDecode reader of Inl err \<Rightarrow> Inl err
         | Inr (tx, n) \<Rightarrow>
             (let btx = TxFromMsgTx p tx False;
                  btx' = fst (parseIndexTx btx)
              in ParseBlock_loop p BtcDecode ntx (Suc i) (drop n reader) (txs[i := btx'])))
      else Inr (txs, reader))"
  by pat_completeness auto
termination
  by (relation "measure (\<lambda>(p, BtcDecode, ntx, i, reader, txs). ntx - i)") auto

declare ParseBlock_loop.simps [simp del]

text \<open>
  \<open>sizeof_Tx\<close> is the size in bytes of a \<^verbatim>\<open>bchain.Tx\<close>, which the missing struct declaration
  fixes: the allocation of the slice depends on it.
\<close>

definition ParseBlock ::
    "'m IndexChainParser \<Rightarrow> (byte list \<Rightarrow> failure + ('m \<times> nat)) \<Rightarrow> nat \<Rightarrow>
     byte list \<Rightarrow> failure + Block" where
  "ParseBlock p BtcDecode sizeof_Tx b =
     (case parseBlockHeader b of Inl err \<Rightarrow> Inl err
      | Inr (header, reader1) \<Rightarrow>
     (case ReadVarInt reader1 of Inl err \<Rightarrow> Inl err
      | Inr (ntx, reader2) \<Rightarrow>
          if makeslice_panics sizeof_Tx (unat ntx) then Inl panicmakeslicelen
          else
            (case ParseBlock_loop p BtcDecode (unat ntx) 0 reader2
                    (replicate (unat ntx) zero_Tx) of
               Inl err \<Rightarrow> Inl err
             | Inr (txs, reader3) \<Rightarrow>
                 Inr \<lparr>Size = int (length b), Time = Timestamp header, Txs = txs\<rparr>)))"

text \<open>
  The bytes the local \<^verbatim>\<open>reader\<close> has not read when \<^verbatim>\<open>ParseBlock\<close> returns a block (\<open>None\<close>
  when it returns none): the same steps, keeping the reader instead of the block.
\<close>

definition ParseBlock_unread ::
    "'m IndexChainParser \<Rightarrow> (byte list \<Rightarrow> failure + ('m \<times> nat)) \<Rightarrow> nat \<Rightarrow>
     byte list \<Rightarrow> byte list option" where
  "ParseBlock_unread p BtcDecode sizeof_Tx b =
     (case parseBlockHeader b of Inl err \<Rightarrow> None
      | Inr (header, reader1) \<Rightarrow>
     (case ReadVarInt reader1 of Inl err \<Rightarrow> None
      | Inr (ntx, reader2) \<Rightarrow>
          if makeslice_panics sizeof_Tx (unat ntx) then None
          else
            (case ParseBlock_loop p BtcDecode (unat ntx) 0 reader2
                    (replicate (unat ntx) zero_Tx) of
               Inl err \<Rightarrow> None
             | Inr (txs, reader3) \<Rightarrow> Some reader3)))"

subsection \<open>The JSON importer: \<^verbatim>\<open>ParseTxFromJson\<close>\<close>




subsection \<open>The amount parser\<close>

text \<open>
  Modelled from the spec: \<^verbatim>\<open>BaseParser.AmountToBigInt\<close>, the amount-parsing routine the parser
  inherits, is missing from the sources. It converts a decimal amount to the integer
  amount in the smallest unit of a chain with \<open>d\<close> decimal places, on the string itself: the
  decimal point moves \<open>d\<close> places to the right (zeros are appended, digits beyond \<open>d\<close>
  places are cut), and what is then not an optionally signed, non-empty sequence of decimal
  digits is an error.
\<close>

definition digit_of :: "char \<Rightarrow> nat option" where
  "digit_of c =
     (let code = (of_char c :: nat)
      in if of_char (CHR ''0'') \<le> code \<and> code \<le> of_char (CHR ''9'')
         then Some (code - of_char (CHR ''0'')) else None)"

fun parse_digits :: "string \<Rightarrow> nat \<Rightarrow> nat option" where
  "parse_digits [] acc = Some acc"
| "parse_digits (c # cs) acc =
     (case digit_of c of None \<Rightarrow> None | Some d \<Rightarrow> parse_digits cs (10 * acc + d))"

definition SetString :: "string \<Rightarrow> int option" where
  "SetString s =
     (case s of [] \<Rightarrow> None
      | c # cs \<Rightarrow>
          if c = CHR ''-'' then
            (if cs = [] then None else map_option (\<lambda>n. - int n) (parse_digits cs 0))
          else if c = CHR ''+'' then
            (if cs = [] then None else map_option int (parse_digits cs 0))
          else map_option int (parse_digits s 0))"

definition BaseParser_AmountToBigInt :: "nat \<Rightarrow> string \<Rightarrow> failure + int" where
  "BaseParser_AmountToBigInt d n =
     (let whole = takeWhile (\<lambda>c. c \<noteq> CHR ''.'') n;
          fraction = drop 1 (dropWhile (\<lambda>c. c \<noteq> CHR ''.'') n);
          s = whole @ take d (fraction @ replicate d (CHR ''0''))
      in case SetString s of
           None \<Rightarrow> Inl (Err (OtherError ''AmountToBigInt: failed to convert''))
         | Some r \<Rightarrow> Inr r)"

subsection \<open>What the spec says, for comparison\<close>

text \<open>
  The header an 80-byte sequence encodes, the size of the canonical compact-size encoding of
  a value, a given number of transactions decoded one after the other from a stream, and the
  conversion of the amounts of a list of outputs. The properties below compare the parser
  with these.
\<close>

definition header_of :: "byte list \<Rightarrow> wire_BlockHeader" where
  "header_of hdr =
     \<lparr>Version = word_of_nat (le_nat (take 4 hdr)),
      PrevBlock = take 32 (drop 4 hdr),
      MerkleRoot = take 32 (drop 36 hdr),
      Timestamp = uint (word_of_nat (le_nat (take 4 (drop 68 hdr))) :: 32 word),
      Bits = word_of_nat (le_nat (take 4 (drop 72 hdr))),
      Nonce = word_of_nat (le_nat (take 4 (drop 76 hdr)))\<rparr>"

definition varint_size :: "64 word \<Rightarrow> nat" where
  "varint_size v =
     (if v < 0xfd then 1 else if v \<le> 0xffff then 3 else if v \<le> 0xffffffff then 5 else 9)"

fun decode_txs ::
    "(byte list \<Rightarrow> failure + ('m \<times> nat)) \<Rightarrow> nat \<Rightarrow> byte list \<Rightarrow>
     failure + ('m list \<times> byte list)" where
  "decode_txs BtcDecode 0 reader = Inr ([], reader)"
| "decode_txs BtcDecode (Suc k) reader =
     (case BtcDecode reader of Inl err \<Rightarrow> Inl err
      | Inr (tx, n) \<Rightarrow>
          (case decode_txs BtcDecode k (drop n reader) of Inl err \<Rightarrow> Inl err
           | Inr (txs, reader') \<Rightarrow> Inr (tx # txs, reader')))"


text \<open>
  What the spec says of the transaction decoder: each transaction consumes exactly its own
  encoded length from the stream. A decoder that has decoded a message has read its bytes
  from the stream and nothing else, so the bytes after them do not change what it returns.
\<close>

definition self_delimiting :: "(byte list \<Rightarrow> failure + ('m \<times> nat)) \<Rightarrow> bool" where
  "self_delimiting BtcDecode \<longleftrightarrow>
     (\<forall>reader tx n extra.
        BtcDecode reader = Inr (tx, n) \<longrightarrow>
        n \<le> length reader \<and> BtcDecode (reader @ extra) = Inr (tx, n))"

subsection \<open>Example values\<close>

text \<open>A transaction with a privacy-protocol spend input, a plain input and one output.\<close>

definition example_spend_vin :: Vin where
  "example_spend_vin = \<lparr>Coinbase = [], Txid = SpendTxID, Vout = 7, ScriptSig = ''c2'',
     Sequence = 0xffffffff, Addresses = [''Zerospend'']\<rparr>"

definition example_plain_vin :: Vin where
  "example_plain_vin = \<lparr>Coinbase = [], Txid = ''ab'', Vout = 1, ScriptSig = ''00'',
     Sequence = 0xfffffffe, Addresses = []\<rparr>"

definition example_tx :: Tx where
  "example_tx = \<lparr>Tx_Txid = ''cd'', Tx_Version = 1, Tx_LockTime = 0,
     Tx_Vin = [example_spend_vin, example_plain_vin],
     Tx_Vout = [\<lparr>ValueSat = 0, JsonValue = ''1.5'', ScriptPubKey = ''c1''\<rparr>]\<rparr>"

text \<open>
  Two block headers of 80 bytes with the time 1414776286, the first of a proof-of-stake
  block (nonce 0), the second with nonce 7.
\<close>

definition example_pos_header :: "byte list" where
  "example_pos_header =
     replicate 68 0 @ [0xde, 0xc5, 0x53, 0x54] @ [0xff, 0xff, 0x00, 0x1d] @ [0, 0, 0, 0]"

definition example_pow_header :: "byte list" where
  "example_pow_header =
     replicate 68 0 @ [0xde, 0xc5, 0x53, 0x54] @ [0xff, 0xff, 0x00, 0x1d] @ [7, 0, 0, 0]"

text \<open>
  A transaction decoder that reads a length byte and that many bytes, and a parser: its
  transactions have the length of the message as their version and one input, a spend for
  the empty message and a plain input for any other; its script resolver knows one address
  for every script, its amounts have 8 decimal places.
\<close>

definition example_decoder :: "byte list \<Rightarrow> failure + (byte list \<times> nat)" where
  "example_decoder reader =
     (case reader of [] \<Rightarrow> Inl (Err EOF)
      | n # rest \<Rightarrow>
          if length rest < unat n then Inl (Err ErrUnexpectedEOF)
          else Inr (take (unat n) rest, Suc (unat n)))"

definition example_parser :: "byte list IndexChainParser" where
  "example_parser =
     \<lparr>TxFromMsgTx =
        (\<lambda>tx w. zero_Tx\<lparr>Tx_Version := word_of_nat (length tx),
                          Tx_Vin := [if tx = [] then example_spend_vin else example_plain_vin]\<rparr>),
      OutputScriptToAddressesFunc = (\<lambda>addrDesc. ([''aBcD''], True, None)),
      AmountToBigInt = BaseParser_AmountToBigInt 8\<rparr>"





section \<open>Properties\<close>

subsection \<open>The normalizer\<close>

lemma parseIndexTx_loop_unfold:
  "parseIndexTx_loop i vins = take i vins @ map parseIndexTx_body (drop i vins)"
proof (induction i vins rule: parseIndexTx_loop.induct)
  case (1 i vins)
  show ?case
  proof (cases "i < length vins")
    case True
    have "parseIndexTx_loop i vins =
        parseIndexTx_loop (Suc i) (vins[i := parseIndexTx_body (vins ! i)])"
      using True by (subst parseIndexTx_loop.simps) simp
    also have "\<dots> = take (Suc i) (vins[i := parseIndexTx_body (vins ! i)]) @
        map parseIndexTx_body (drop (Suc i) (vins[i := parseIndexTx_body (vins ! i)]))"
      using "1.IH" [OF True] .
    also have "\<dots> = take i vins @ map parseIndexTx_body (drop i vins)"
      using True
      by (simp add: take_Suc_conv_app_nth Cons_nth_drop_Suc [symmetric])
    finally show ?thesis .
  next
    case False
    then show ?thesis by (subst parseIndexTx_loop.simps) simp
  qed
qed

lemma parseIndexTx_map:
  "fst (parseIndexTx tx) = tx\<lparr>Tx_Vin := map parseIndexTx_body (Tx_Vin tx)\<rparr>"
  by (simp add: parseIndexTx_def parseIndexTx_loop_unfold)

lemma SpendTxID_length: "length SpendTxID = 64"
  by (simp add: SpendTxID_def)

lemma SpendTxID_not_empty: "SpendTxID \<noteq> []"
  by (simp add: SpendTxID_def)

lemma parseIndexTx_body_Txid: "Txid (parseIndexTx_body vin) \<noteq> SpendTxID"
  by (simp add: parseIndexTx_body_def SpendTxID_not_empty [symmetric])

lemma parseIndexTx_returns_nil: "snd (parseIndexTx tx) = None"
  by (simp add: parseIndexTx_def)

lemma parseIndexTx_body_sentinel:
  "Txid vin = SpendTxID \<Longrightarrow>
   parseIndexTx_body vin = vin\<lparr>Coinbase := SpendTxID, Txid := [], Sequence := 0, Vout := 0\<rparr>"
  by (simp add: parseIndexTx_body_def)

lemma parseIndexTx_body_other:
  "Txid vin \<noteq> SpendTxID \<Longrightarrow> parseIndexTx_body vin = vin"
  by (simp add: parseIndexTx_body_def)

lemma parseIndexTx_nth:
  "i < length (Tx_Vin tx) \<Longrightarrow>
   Tx_Vin (fst (parseIndexTx tx)) ! i = parseIndexTx_body (Tx_Vin tx ! i)"
  by (simp add: parseIndexTx_map)

lemma SpendTxID_zeros: "SpendTxID = replicate 64 (CHR ''0'')"
  by (simp add: SpendTxID_def numeral_eq_Suc)

text \<open>
  Claim C1, as stated, fails: the sentinel \<^verbatim>\<open>SpendTxID\<close> of the source is not the string of 68
  zero characters.
\<close>

theorem SpendTxID_not_68_zeros: "SpendTxID \<noteq> replicate 68 (CHR ''0'')"
proof
  assume "SpendTxID = replicate 68 (CHR ''0'')"
  then have "length SpendTxID = length (replicate 68 (CHR ''0''))" by (rule arg_cong)
  then show False by (simp add: SpendTxID_length)
qed

text \<open>
  Claim C1, amended: the sentinel is the string of 64 zero characters, the hexadecimal form
  of 32 zero bytes and so of the length of a standard hash; the rewrite of the normalizer
  changes an input exactly when its previous-transaction-id equals this string.
\<close>

theorem SpendTxID_rewrite_trigger:
  "SpendTxID = replicate 64 (CHR ''0'') \<and> length SpendTxID = 2 * 32 \<and>
   (\<forall>i < length (Tx_Vin tx).
      (Tx_Vin (fst (parseIndexTx tx)) ! i \<noteq> Tx_Vin tx ! i) = (Txid (Tx_Vin tx ! i) = SpendTxID))"
proof (intro conjI allI impI)
  show "SpendTxID = replicate 64 (CHR ''0'')" by (rule SpendTxID_zeros)
  show "length SpendTxID = 2 * 32" by (simp add: SpendTxID_length)
next
  fix i assume i: "i < length (Tx_Vin tx)"
  let ?v = "Tx_Vin tx ! i"
  show "(Tx_Vin (fst (parseIndexTx tx)) ! i \<noteq> ?v) = (Txid ?v = SpendTxID)"
  proof (cases "Txid ?v = SpendTxID")
    case True
    have "Txid (parseIndexTx_body ?v) \<noteq> Txid ?v"
      using True parseIndexTx_body_Txid [of ?v] by simp
    then have "parseIndexTx_body ?v \<noteq> ?v" by auto
    then show ?thesis using True i by (simp add: parseIndexTx_nth)
  next
    case False
    then show ?thesis using i by (simp add: parseIndexTx_nth parseIndexTx_body_other)
  qed
qed

text \<open>Claim C1, amended, on the example transaction: the first input is rewritten, the second is not.\<close>

theorem SpendTxID_rewrite_trigger_witness:
  "Txid (Tx_Vin example_tx ! 0) = SpendTxID \<and>
   Tx_Vin (fst (parseIndexTx example_tx)) ! 0 \<noteq> Tx_Vin example_tx ! 0 \<and>
   Txid (Tx_Vin example_tx ! 1) \<noteq> SpendTxID \<and>
   Tx_Vin (fst (parseIndexTx example_tx)) ! 1 = Tx_Vin example_tx ! 1"
proof -
  have "0 < length (Tx_Vin example_tx)" "1 < length (Tx_Vin example_tx)"
    by (simp_all add: example_tx_def)
  moreover have "Txid (Tx_Vin example_tx ! 0) = SpendTxID"
    by (simp add: example_tx_def example_spend_vin_def)
  moreover have "Txid (Tx_Vin example_tx ! 1) \<noteq> SpendTxID"
    by (simp add: example_tx_def example_plain_vin_def SpendTxID_def)
  ultimately show ?thesis
    using SpendTxID_rewrite_trigger [of example_tx, THEN conjunct2, THEN conjunct2, rule_format, of 0]
      SpendTxID_rewrite_trigger [of example_tx, THEN conjunct2, THEN conjunct2, rule_format, of 1]
    by simp
qed


text \<open>
  Claim C2: an input whose previous-transaction-id is the sentinel has, after the normalizer,
  the sentinel as its coinbase, an empty previous-transaction-id, and output index and
  sequence number 0; every other input is unchanged. The inputs keep their number and order.
\<close>

theorem parseIndexTx_inputs:
  "length (Tx_Vin (fst (parseIndexTx tx))) = length (Tx_Vin tx) \<and>
   (\<forall>i < length (Tx_Vin tx).
      (Txid (Tx_Vin tx ! i) = SpendTxID \<longrightarrow>
         Coinbase (Tx_Vin (fst (parseIndexTx tx)) ! i) = SpendTxID \<and>
         Txid (Tx_Vin (fst (parseIndexTx tx)) ! i) = [] \<and>
         Vout (Tx_Vin (fst (parseIndexTx tx)) ! i) = 0 \<and>
         Sequence (Tx_Vin (fst (parseIndexTx tx)) ! i) = 0) \<and>
      (Txid (Tx_Vin tx ! i) \<noteq> SpendTxID \<longrightarrow>
         Tx_Vin (fst (parseIndexTx tx)) ! i = Tx_Vin tx ! i))"
proof (intro conjI allI impI)
  show "length (Tx_Vin (fst (parseIndexTx tx))) = length (Tx_Vin tx)"
    by (simp add: parseIndexTx_map)
next
  fix i
  assume i: "i < length (Tx_Vin tx)" and s: "Txid (Tx_Vin tx ! i) = SpendTxID"
  have eq: "Tx_Vin (fst (parseIndexTx tx)) ! i =
      (Tx_Vin tx ! i)\<lparr>Coinbase := SpendTxID, Txid := [], Sequence := 0, Vout := 0\<rparr>"
    using i s by (simp only: parseIndexTx_nth parseIndexTx_body_sentinel)
  show "Coinbase (Tx_Vin (fst (parseIndexTx tx)) ! i) = SpendTxID" by (simp add: eq)
  show "Txid (Tx_Vin (fst (parseIndexTx tx)) ! i) = []" by (simp add: eq)
  show "Vout (Tx_Vin (fst (parseIndexTx tx)) ! i) = 0" by (simp add: eq)
  show "Sequence (Tx_Vin (fst (parseIndexTx tx)) ! i) = 0" by (simp add: eq)
next
  fix i
  assume "i < length (Tx_Vin tx)" and "Txid (Tx_Vin tx ! i) \<noteq> SpendTxID"
  then show "Tx_Vin (fst (parseIndexTx tx)) ! i = Tx_Vin tx ! i"
    by (simp add: parseIndexTx_nth parseIndexTx_body_other)
qed

text \<open>Claim C2 on the example transaction, whose first input is a spend and whose second is not.\<close>

theorem parseIndexTx_inputs_witness:
  "Txid (Tx_Vin example_tx ! 0) = SpendTxID \<and>
   Coinbase (Tx_Vin (fst (parseIndexTx example_tx)) ! 0) = SpendTxID \<and>
   Txid (Tx_Vin (fst (parseIndexTx example_tx)) ! 0) = [] \<and>
   Vout (Tx_Vin (fst (parseIndexTx example_tx)) ! 0) = 0 \<and>
   Sequence (Tx_Vin (fst (parseIndexTx example_tx)) ! 0) = 0 \<and>
   Txid (Tx_Vin example_tx ! 1) \<noteq> SpendTxID \<and>
   Tx_Vin (fst (parseIndexTx example_tx)) ! 1 = example_plain_vin"
proof -
  have len: "length (Tx_Vin example_tx) = 2" by (simp add: example_tx_def)
  have v0: "Tx_Vin example_tx ! 0 = example_spend_vin" by (simp add: example_tx_def)
  have v1: "Tx_Vin example_tx ! 1 = example_plain_vin" by (simp add: example_tx_def)
  have t0: "Txid example_spend_vin = SpendTxID" by (simp add: example_spend_vin_def)
  have t1: "Txid example_plain_vin \<noteq> SpendTxID"
    by (simp add: example_plain_vin_def SpendTxID_def)
  note all = parseIndexTx_inputs [of example_tx, THEN conjunct2, rule_format]
  have "0 < length (Tx_Vin example_tx)" "1 < length (Tx_Vin example_tx)" by (simp_all add: len)
  then show ?thesis
    using all [of 0, THEN conjunct1] all [of 1, THEN conjunct2] v0 v1 t0 t1 by simp
qed

text \<open>
  Claim C7: the normalizer is idempotent, and after one pass no input has the sentinel as
  its previous-transaction-id.
\<close>

theorem parseIndexTx_idempotent:
  "fst (parseIndexTx (fst (parseIndexTx tx))) = fst (parseIndexTx tx) \<and>
   (\<forall>vin \<in> set (Tx_Vin (fst (parseIndexTx tx))). Txid vin \<noteq> SpendTxID)"
proof
  show no_sentinel: "\<forall>vin \<in> set (Tx_Vin (fst (parseIndexTx tx))). Txid vin \<noteq> SpendTxID"
    by (auto simp: parseIndexTx_map parseIndexTx_body_Txid)
  have "map parseIndexTx_body (Tx_Vin (fst (parseIndexTx tx))) = Tx_Vin (fst (parseIndexTx tx))"
    using no_sentinel by (intro map_idI) (simp add: parseIndexTx_body_other)
  then show "fst (parseIndexTx (fst (parseIndexTx tx))) = fst (parseIndexTx tx)"
    by (subst parseIndexTx_map) simp
qed

text \<open>Claim C7 on the example transaction.\<close>

theorem parseIndexTx_idempotent_witness:
  "fst (parseIndexTx (fst (parseIndexTx example_tx))) = fst (parseIndexTx example_tx) \<and>
   Txid (Tx_Vin example_tx ! 0) = SpendTxID \<and>
   Txid (Tx_Vin (fst (parseIndexTx example_tx)) ! 0) \<noteq> SpendTxID"
proof -
  have "Tx_Vin (fst (parseIndexTx example_tx)) ! 0 \<in> set (Tx_Vin (fst (parseIndexTx example_tx)))"
    by (simp add: parseIndexTx_map example_tx_def)
  then show ?thesis
    using parseIndexTx_idempotent [of example_tx]
    by (simp add: example_tx_def example_spend_vin_def)
qed

text \<open>
  Claim C10: the normalizer changes no field of the transaction but the input list (the
  outputs in particular), and of an input only the previous-transaction-id, the coinbase, the
  sequence number and the output index: script data and addresses stay.
\<close>

theorem parseIndexTx_frame:
  "Tx_Vout (fst (parseIndexTx tx)) = Tx_Vout tx \<and>
   fst (parseIndexTx tx) = tx\<lparr>Tx_Vin := Tx_Vin (fst (parseIndexTx tx))\<rparr> \<and>
   (\<forall>i < length (Tx_Vin tx).
      ScriptSig (Tx_Vin (fst (parseIndexTx tx)) ! i) = ScriptSig (Tx_Vin tx ! i) \<and>
      Addresses (Tx_Vin (fst (parseIndexTx tx)) ! i) = Addresses (Tx_Vin tx ! i) \<and>
      Tx_Vin (fst (parseIndexTx tx)) ! i =
        (Tx_Vin tx ! i)\<lparr>Coinbase := Coinbase (Tx_Vin (fst (parseIndexTx tx)) ! i),
                         Txid := Txid (Tx_Vin (fst (parseIndexTx tx)) ! i),
                         Sequence := Sequence (Tx_Vin (fst (parseIndexTx tx)) ! i),
                         Vout := Vout (Tx_Vin (fst (parseIndexTx tx)) ! i)\<rparr>)"
proof (intro conjI allI impI)
  show "Tx_Vout (fst (parseIndexTx tx)) = Tx_Vout tx" by (simp add: parseIndexTx_map)
  show "fst (parseIndexTx tx) = tx\<lparr>Tx_Vin := Tx_Vin (fst (parseIndexTx tx))\<rparr>"
    by (simp add: parseIndexTx_map)
next
  fix i assume i: "i < length (Tx_Vin tx)"
  have n: "Tx_Vin (fst (parseIndexTx tx)) ! i = parseIndexTx_body (Tx_Vin tx ! i)"
    using i by (rule parseIndexTx_nth)
  show "ScriptSig (Tx_Vin (fst (parseIndexTx tx)) ! i) = ScriptSig (Tx_Vin tx ! i)"
    unfolding n by (simp add: parseIndexTx_body_def)
  show "Addresses (Tx_Vin (fst (parseIndexTx tx)) ! i) = Addresses (Tx_Vin tx ! i)"
    unfolding n by (simp add: parseIndexTx_body_def)
  show "Tx_Vin (fst (parseIndexTx tx)) ! i =
        (Tx_Vin tx ! i)\<lparr>Coinbase := Coinbase (Tx_Vin (fst (parseIndexTx tx)) ! i),
                         Txid := Txid (Tx_Vin (fst (parseIndexTx tx)) ! i),
                         Sequence := Sequence (Tx_Vin (fst (parseIndexTx tx)) ! i),
                         Vout := Vout (Tx_Vin (fst (parseIndexTx tx)) ! i)\<rparr>"
    unfolding n by (simp add: parseIndexTx_body_def)
qed

text \<open>Claim C10 on the example transaction.\<close>

theorem parseIndexTx_frame_witness:
  "Tx_Vout (fst (parseIndexTx example_tx)) = Tx_Vout example_tx \<and>
   Txid (Tx_Vin example_tx ! 0) = SpendTxID \<and>
   ScriptSig (Tx_Vin (fst (parseIndexTx example_tx)) ! 0) = ''c2'' \<and>
   Addresses (Tx_Vin (fst (parseIndexTx example_tx)) ! 0) = [''Zerospend'']"
proof -
  have "0 < length (Tx_Vin example_tx)" by (simp add: example_tx_def)
  then show ?thesis
    using parseIndexTx_frame [of example_tx, THEN conjunct2, THEN conjunct2, rule_format, of 0]
      parseIndexTx_frame [of example_tx, THEN conjunct1]
    by (simp add: example_tx_def example_spend_vin_def)
qed

subsection \<open>The wire format\<close>

lemma ReadFull_pos:
  "0 < n \<Longrightarrow> ReadFull r n =
     (if r = [] then Inl (Err EOF)
      else if length r < n then Inl (Err ErrUnexpectedEOF)
      else Inr (take n r, drop n r))"
  by (simp add: ReadFull_def)

lemma ReadFull_ge: "n \<le> length r \<Longrightarrow> ReadFull r n = Inr (take n r, drop n r)"
  by (auto simp: ReadFull_def)

lemma ReadFull_lt: "length r < n \<Longrightarrow> ReadFull r n = Inl (Err (if r = [] then EOF else ErrUnexpectedEOF))"
  by (auto simp: ReadFull_def)

lemma ReadFull_Inr:
  "ReadFull r n = Inr (buf, r') \<Longrightarrow> n \<le> length r \<and> buf = take n r \<and> r' = drop n r"
  by (auto simp: ReadFull_def split: if_splits)

lemma Uint8_eq:
  "Uint8 r = (if r = [] then Inl (Err EOF) else Inr (word_of_nat (le_nat (take 1 r)), drop 1 r))"
  by (cases r) (simp_all add: Uint8_def ReadFull_def)

lemma Uint16_eq:
  "Uint16 r = (if r = [] then Inl (Err EOF) else if length r < 2 then Inl (Err ErrUnexpectedEOF)
     else Inr (word_of_nat (le_nat (take 2 r)), drop 2 r))"
  by (simp add: Uint16_def ReadFull_pos)

lemma Uint32_eq:
  "Uint32 r = (if r = [] then Inl (Err EOF) else if length r < 4 then Inl (Err ErrUnexpectedEOF)
     else Inr (word_of_nat (le_nat (take 4 r)), drop 4 r))"
  by (simp add: Uint32_def ReadFull_pos)

lemma Uint64_eq:
  "Uint64 r = (if r = [] then Inl (Err EOF) else if length r < 8 then Inl (Err ErrUnexpectedEOF)
     else Inr (word_of_nat (le_nat (take 8 r)), drop 8 r))"
  by (simp add: Uint64_def ReadFull_pos)

lemma Deserialize_ge:
  assumes "80 \<le> length r"
  shows "Deserialize r = Inr (header_of (take 80 r), drop 80 r)"
proof -
  have ne: "r \<noteq> []" using assms by auto
  show ?thesis
    using assms ne
    by (simp add: Deserialize_def Uint32_eq ReadFull_pos header_of_def take_drop min_def) arith
qed

lemma Deserialize_lt:
  assumes "length r < 80"
  shows "\<exists>e. Deserialize r = Inl (Err e) \<and> (e = EOF \<or> e = ErrUnexpectedEOF)"
proof -
  show ?thesis
    using assms
    by (auto simp add: Deserialize_def Uint32_eq ReadFull_pos)
qed

lemma Deserialize_Inr:
  assumes "Deserialize r = Inr (h, r')"
  shows "80 \<le> length r \<and> h = header_of (take 80 r) \<and> r' = drop 80 r"
proof (cases "80 \<le> length r")
  case True
  then show ?thesis using assms by (simp add: Deserialize_ge)
next
  case False
  then have "length r < 80" by simp
  from Deserialize_lt [OF this] assms show ?thesis by auto
qed

lemma Deserialize_append:
  "length hdr = 80 \<Longrightarrow> Deserialize (hdr @ rest) = Inr (header_of hdr, rest)"
  by (simp add: Deserialize_ge)

lemma byte_below_0xfd: "(d::8 word) \<noteq> 0xff \<Longrightarrow> d \<noteq> 0xfe \<Longrightarrow> d \<noteq> 0xfd \<Longrightarrow> d < 0xfd"
  apply (simp add: word_less_nat_alt word_unat_eq_iff)
  using unsigned_less [of d, where 'a=nat] 
  apply simp
  done

lemma unat_ucast_8_64: "unat (ucast (w :: 8 word) :: 64 word) = unat w"
  by (simp add: unsigned_ucast_eq take_bit_nat_eq_self unsigned_less [of w, where 'a=nat, simplified] less_trans [OF unsigned_less [of w, where 'a=nat]])

lemma unat_ucast_16_64: "unat (ucast (w :: 16 word) :: 64 word) = unat w"
  by (simp add: unsigned_ucast_eq take_bit_nat_eq_self less_trans [OF unsigned_less [of w, where 'a=nat]])

lemma unat_ucast_32_64: "unat (ucast (w :: 32 word) :: 64 word) = unat w"
  by (simp add: unsigned_ucast_eq take_bit_nat_eq_self less_trans [OF unsigned_less [of w, where 'a=nat]])

lemma varint_size_byte:
  "(d::8 word) \<noteq> 0xff \<Longrightarrow> d \<noteq> 0xfe \<Longrightarrow> d \<noteq> 0xfd \<Longrightarrow> varint_size (ucast d) = 1"
  using byte_below_0xfd [of d] by (simp add: varint_size_def word_less_nat_alt unat_ucast_8_64)

lemma varint_size_16:
  "\<not> (ucast (w :: 16 word) :: 64 word) < 0xfd \<Longrightarrow> varint_size (ucast w) = 3"
  using unsigned_less [of w, where 'a=nat]
  by (simp add: varint_size_def word_le_nat_alt unat_ucast_16_64)

lemma varint_size_32:
  "\<not> (ucast (w :: 32 word) :: 64 word) < 0x10000 \<Longrightarrow> varint_size (ucast w) = 5"
  using unsigned_less [of w, where 'a=nat]
  by (simp add: varint_size_def word_le_nat_alt word_less_nat_alt unat_ucast_32_64)

lemma varint_size_64:
  "\<not> (w :: 64 word) < 0x100000000 \<Longrightarrow> varint_size w = 9"
  by (simp add: varint_size_def word_le_nat_alt word_less_nat_alt)

lemma ReadVarInt_Nil: "ReadVarInt [] = Inl (Err EOF)"
  by (simp add: ReadVarInt_def Uint8_eq)

lemma ReadVarInt_Cons:
  "ReadVarInt (d # r1) =
     (if d = 0xff then
        (case Uint64 r1 of Inl e \<Rightarrow> Inl e
         | Inr (sv, r2) \<Rightarrow>
             if sv < 0x100000000 then Inl (Err (MessageError ''ReadVarInt''))
             else Inr (sv, r2))
      else if d = 0xfe then
        (case Uint32 r1 of Inl e \<Rightarrow> Inl e
         | Inr (sv, r2) \<Rightarrow>
             if (ucast sv :: 64 word) < 0x10000 then Inl (Err (MessageError ''ReadVarInt''))
             else Inr (ucast sv, r2))
      else if d = 0xfd then
        (case Uint16 r1 of Inl e \<Rightarrow> Inl e
         | Inr (sv, r2) \<Rightarrow>
             if (ucast sv :: 64 word) < 0xfd then Inl (Err (MessageError ''ReadVarInt''))
             else Inr (ucast sv, r2))
      else Inr (ucast d, r1))"
  by (simp add: ReadVarInt_def Uint8_eq le_nat_def)

lemma ReadVarInt_Inr:
  assumes "ReadVarInt r = Inr (v, r')"
  shows "varint_size v \<le> length r \<and> r' = drop (varint_size v) r"
proof (cases r)
  case Nil
  then show ?thesis using assms by (simp add: ReadVarInt_Nil)
next
  case (Cons d r1)
  consider (ff) "d = 0xff" | (fe) "d = 0xfe" | (fd) "d = 0xfd"
    | (other) "d \<noteq> 0xff" "d \<noteq> 0xfe" "d \<noteq> 0xfd" by blast
  then show ?thesis
  proof cases
    case ff
    then show ?thesis
      using assms Cons
      by (auto simp: ReadVarInt_Cons Uint64_eq varint_size_64 split: if_splits)
  next
    case fe
    then show ?thesis
      using assms Cons
      by (auto simp: ReadVarInt_Cons Uint32_eq varint_size_32 split: if_splits)
  next
    case fd
    then show ?thesis
      using assms Cons
      by (auto simp: ReadVarInt_Cons Uint16_eq varint_size_16 split: if_splits)
  next
    case other
    then show ?thesis
      using assms Cons
      by (auto simp: ReadVarInt_Cons varint_size_byte)
  qed
qed

lemma ReadVarInt_small:
  "unat d < 0xfd \<Longrightarrow> ReadVarInt (d # r) = Inr (ucast d, r)"
  by (auto simp: ReadVarInt_Cons word_unat_eq_iff)

lemma ReadVarInt_0: "ReadVarInt (0 # r) = Inr (0, r)"
  using ReadVarInt_small [of 0 r] by simp

lemma ReadVarInt_max:
  "ReadVarInt (replicate 9 0xff) = Inr (0xffffffffffffffff, [])"
  by (simp add: numeral_eq_Suc ReadVarInt_Cons Uint64_eq le_nat_def del: replicate_Suc)
     (simp add: ReadVarInt_Cons Uint64_eq le_nat_def)

lemma ReadFull_extend:
  "ReadFull r n = Inr (buf, r') \<Longrightarrow> ReadFull (r @ extra) n = Inr (buf, r' @ extra)"
  by (auto simp: ReadFull_def split: if_splits)

lemma Deserialize_extend:
  assumes "Deserialize r = Inr (h, r')"
  shows "Deserialize (r @ extra) = Inr (h, r' @ extra)"
proof -
  from Deserialize_Inr [OF assms] have "80 \<le> length r" "h = header_of (take 80 r)" "r' = drop 80 r"
    by simp_all
  then show ?thesis by (simp add: Deserialize_ge)
qed

lemma Uint16_extend:
  "Uint16 r = Inr (v, r') \<Longrightarrow> Uint16 (r @ extra) = Inr (v, r' @ extra)"
  by (auto simp: Uint16_eq split: if_splits)

lemma Uint32_extend:
  "Uint32 r = Inr (v, r') \<Longrightarrow> Uint32 (r @ extra) = Inr (v, r' @ extra)"
  by (auto simp: Uint32_eq split: if_splits)

lemma Uint64_extend:
  "Uint64 r = Inr (v, r') \<Longrightarrow> Uint64 (r @ extra) = Inr (v, r' @ extra)"
  by (auto simp: Uint64_eq split: if_splits)

lemma ReadVarInt_extend:
  assumes "ReadVarInt r = Inr (v, r')"
  shows "ReadVarInt (r @ extra) = Inr (v, r' @ extra)"
proof (cases r)
  case Nil
  then show ?thesis using assms by (simp add: ReadVarInt_Nil)
next
  case (Cons d r1)
  consider (ff) "d = 0xff" | (fe) "d = 0xfe" | (fd) "d = 0xfd"
    | (other) "d \<noteq> 0xff" "d \<noteq> 0xfe" "d \<noteq> 0xfd" by blast
  then show ?thesis
  proof cases
    case ff
    have U: "Uint64 r1 = Inr (v, r')" and c: "\<not> v < 0x100000000"
      using assms Cons ff by (auto simp: ReadVarInt_Cons split: sum.splits if_splits)
    show ?thesis
      using Uint64_extend [OF U, of extra] c Cons ff by (simp add: ReadVarInt_Cons)
  next
    case fe
    obtain sv where U: "Uint32 r1 = Inr (sv, r')" and v: "v = ucast sv"
      and c: "\<not> (ucast sv :: 64 word) < 0x10000"
      using assms Cons fe by (auto simp: ReadVarInt_Cons split: sum.splits if_splits)
    show ?thesis
      using Uint32_extend [OF U, of extra] c v Cons fe by (simp add: ReadVarInt_Cons)
  next
    case fd
    obtain sv where U: "Uint16 r1 = Inr (sv, r')" and v: "v = ucast sv"
      and c: "\<not> (ucast sv :: 64 word) < 0xfd"
      using assms Cons fd by (auto simp: ReadVarInt_Cons split: sum.splits if_splits)
    show ?thesis
      using Uint16_extend [OF U, of extra] c v Cons fd by (simp add: ReadVarInt_Cons)
  next
    case other
    then show ?thesis using assms Cons by (auto simp: ReadVarInt_Cons)
  qed
qed

subsection \<open>The header decoder\<close>

lemma parseBlockHeader_Inl:
  "Deserialize r = Inl err \<Longrightarrow> parseBlockHeader r = Inl err"
  by (simp add: parseBlockHeader_def)

lemma parseBlockHeader_nonzero_nonce:
  assumes "parseBlockHeader r = Inr (h, r')" and "Nonce h \<noteq> 0"
  shows "80 \<le> length r \<and> h = header_of (take 80 r) \<and> r' = drop 80 r"
proof -
  obtain h1 r1 where D: "Deserialize r = Inr (h1, r1)"
    using assms(1) by (auto simp: parseBlockHeader_def split: sum.splits)
  have "h1 = h"
    using assms(1) D
    by (auto simp: parseBlockHeader_def split: sum.splits if_splits prod.splits)
  then have "r' = r1"
    using assms D by (simp add: parseBlockHeader_def)
  then show ?thesis using Deserialize_Inr [OF D] \<open>h1 = h\<close> by simp
qed

lemma parseBlockHeader_zero_nonce:
  assumes "parseBlockHeader r = Inr (h, r')" and "Nonce h = 0"
  shows "\<exists>L. 80 \<le> length r \<and> h = header_of (take 80 r) \<and>
           ReadVarInt (drop 80 r) = Inr (L, drop (80 + varint_size L) r) \<and>
           \<not> makeslice_panics 1 (unat L) \<and>
           80 + varint_size L + unat L \<le> length r \<and>
           r' = drop (80 + varint_size L + unat L) r"
proof -
  obtain h1 r1 where D: "Deserialize r = Inr (h1, r1)"
    using assms(1) by (auto simp: parseBlockHeader_def split: sum.splits)
  have h1: "h1 = h"
    using assms(1) D
    by (auto simp: parseBlockHeader_def split: sum.splits if_splits prod.splits)
  note DI = Deserialize_Inr [OF D]
  obtain L r2 where V: "ReadVarInt r1 = Inr (L, r2)"
    using assms D h1 by (auto simp: parseBlockHeader_def split: sum.splits)
  note VI = ReadVarInt_Inr [OF V]
  have np: "\<not> makeslice_panics 1 (unat L)"
    using assms D h1 V by (auto simp: parseBlockHeader_def split: if_splits)
  obtain sigBuf where F: "ReadFull r2 (unat L) = Inr (sigBuf, r')"
    using assms D h1 V np by (auto simp: parseBlockHeader_def split: sum.splits)
  note FI = ReadFull_Inr [OF F]
  have r2: "r2 = drop (80 + varint_size L) r" using DI VI by (simp add: add.commute)
  have "unat L \<le> length r - (80 + varint_size L)" using FI r2 by simp
  moreover have "varint_size L \<le> length r - 80" using VI DI by simp
  ultimately have len: "80 + varint_size L + unat L \<le> length r" using DI by linarith
  have "r' = drop (80 + varint_size L + unat L) r" using FI r2 by (simp add: add.commute)
  then show ?thesis using DI h1 V r2 np len by auto
qed

lemma parseBlockHeader_varint_fails:
  assumes "Deserialize r = Inr (h, r1)" and "Nonce h = 0" and "ReadVarInt r1 = Inl err"
  shows "parseBlockHeader r = Inl err"
  using assms by (simp add: parseBlockHeader_def)

lemma parseBlockHeader_short_trailer:
  assumes "Deserialize r = Inr (h, r1)" and "Nonce h = 0" and "ReadVarInt r1 = Inr (L, r2)"
    and "\<not> makeslice_panics 1 (unat L)" and "length r2 < unat L"
  shows "parseBlockHeader r = Inl (Err (if r2 = [] then EOF else ErrUnexpectedEOF))"
  using assms by (simp add: parseBlockHeader_def ReadFull_lt)

lemma parseBlockHeader_oversized_trailer:
  assumes "Deserialize r = Inr (h, r1)" and "Nonce h = 0" and "ReadVarInt r1 = Inr (L, r2)"
    and "makeslice_panics 1 (unat L)"
  shows "parseBlockHeader r = Inl panicmakeslicelen"
  using assms by (simp add: parseBlockHeader_def)

lemma parseBlockHeader_pow:
  assumes "length hdr = 80" and "Nonce (header_of hdr) \<noteq> 0"
  shows "parseBlockHeader (hdr @ rest) = Inr (header_of hdr, rest)"
  using assms by (simp add: parseBlockHeader_def Deserialize_append)

lemma Nonce_header_of_zero:
  "length hdr = 76 \<Longrightarrow> Nonce (header_of (hdr @ [0, 0, 0, 0])) = 0"
  by (simp add: header_of_def le_nat_def)

lemma Nonce_header_of_replicate: "Nonce (header_of (replicate 80 0)) = 0"
proof -
  have "replicate 80 (0 :: byte) = replicate 76 0 @ replicate 4 0"
    by (simp add: replicate_add [symmetric])
  also have "replicate 4 (0 :: byte) = [0, 0, 0, 0]"
    by (simp add: numeral_eq_Suc)
  finally show ?thesis by (simp add: Nonce_header_of_zero)
qed

lemma parseBlockHeader_pos_3:
  assumes "length hdr = 76"
  shows "parseBlockHeader (hdr @ [0, 0, 0, 0] @ [3, t1, t2, t3] @ rest) =
    Inr (header_of (hdr @ [0, 0, 0, 0]), rest)"
proof -
  have len: "length (hdr @ [0, 0, 0, 0]) = 80" using assms by simp
  have D: "Deserialize (hdr @ [0, 0, 0, 0] @ [3, t1, t2, t3] @ rest) =
      Inr (header_of (hdr @ [0, 0, 0, 0]), [3, t1, t2, t3] @ rest)"
    using Deserialize_append [OF len, of "[3, t1, t2, t3] @ rest"] by simp
  have V: "ReadVarInt ([3, t1, t2, t3] @ rest) = Inr (3, [t1, t2, t3] @ rest)"
    using ReadVarInt_small [of 3 "[t1, t2, t3] @ rest"] by simp
  have M: "\<not> makeslice_panics 1 (unat (3 :: 64 word))"
    by (simp add: makeslice_panics_def maxAlloc_def)
  have F: "ReadFull ([t1, t2, t3] @ rest) (unat (3 :: 64 word)) = Inr ([t1, t2, t3], rest)"
    by (simp add: ReadFull_def)
  show ?thesis
    unfolding parseBlockHeader_def D
    using Nonce_header_of_zero [OF assms] V M F by simp
qed

lemma Timestamp_example_pos_header: "Timestamp (header_of example_pos_header) = 1414776286"
  by (simp add: example_pos_header_def header_of_def le_nat_def)

lemma example_pow_header_length: "length example_pow_header = 80"
  by (simp add: example_pow_header_def)

lemma Nonce_example_pow_header: "Nonce (header_of example_pow_header) = 7"
  by (simp add: example_pow_header_def header_of_def le_nat_def)

lemma Timestamp_example_pow_header: "Timestamp (header_of example_pow_header) = 1414776286"
  by (simp add: example_pow_header_def header_of_def le_nat_def)

lemma parseBlockHeader_example_pow:
  "parseBlockHeader (example_pow_header @ rest) = Inr (header_of example_pow_header, rest)"
  by (rule parseBlockHeader_pow) (simp_all add: example_pow_header_length Nonce_example_pow_header)

lemma parseBlockHeader_extend:
  assumes "parseBlockHeader r = Inr (h, r')"
  shows "parseBlockHeader (r @ extra) = Inr (h, r' @ extra)"
proof -
  obtain h1 r1 where D: "Deserialize r = Inr (h1, r1)"
    using assms by (auto simp: parseBlockHeader_def split: sum.splits)
  have h1: "h1 = h"
    using assms D by (auto simp: parseBlockHeader_def split: sum.splits if_splits prod.splits)
  note DE = Deserialize_extend [OF D, of extra]
  show ?thesis
  proof (cases "Nonce h = 0")
    case False
    then have "r' = r1" using assms D h1 by (simp add: parseBlockHeader_def)
    then show ?thesis using DE h1 False by (simp add: parseBlockHeader_def)
  next
    case True
    obtain L r2 where V: "ReadVarInt r1 = Inr (L, r2)"
      using assms D h1 True by (auto simp: parseBlockHeader_def split: sum.splits)
    have np: "\<not> makeslice_panics 1 (unat L)"
      using assms D h1 True V by (auto simp: parseBlockHeader_def split: if_splits)
    obtain sigBuf where F: "ReadFull r2 (unat L) = Inr (sigBuf, r')"
      using assms D h1 True V np by (auto simp: parseBlockHeader_def split: sum.splits)
    show ?thesis
      using DE h1 True ReadVarInt_extend [OF V, of extra] np ReadFull_extend [OF F, of extra]
      by (simp add: parseBlockHeader_def)
  qed
qed

text \<open>
  Claim C4 fails on a header with nonce 0 whose trailer length is 2^64 - 1 and whose trailer
  is missing: \<^verbatim>\<open>make([]byte, sigLength)\<close> panics before a trailer byte is read, where the claim
  has a decode error. (For a trailer the runtime can allocate the claim holds: the lemmas
  \<open>parseBlockHeader_nonzero_nonce\<close>, \<open>parseBlockHeader_zero_nonce\<close>,
  \<open>parseBlockHeader_varint_fails\<close> and \<open>parseBlockHeader_short_trailer\<close> above.)
\<close>

theorem parseBlockHeader_oversized_trailer_panics:
  "parseBlockHeader (replicate 80 0 @ replicate 9 0xff) = Inl panicmakeslicelen"
proof -
  have D: "Deserialize (replicate 80 0 @ replicate 9 0xff) =
      Inr (header_of (replicate 80 0), replicate 9 0xff)"
    by (rule Deserialize_append) simp
  have M: "makeslice_panics 1 (unat (0xffffffffffffffff :: 64 word))"
    by (simp add: makeslice_panics_def maxAlloc_def)
  show ?thesis
    using parseBlockHeader_oversized_trailer [OF D Nonce_header_of_replicate ReadVarInt_max M] .
qed

subsection \<open>The address resolver\<close>

text \<open>
  Claim C3: a descriptor whose first byte is 0xC1, 0xC2, 0xC3 or 0xC4 resolves to the one
  label of that byte, not searchable and without error, whatever bytes follow and whatever
  the generic resolver is (the result does not depend on it, so it is not consulted); the
  empty descriptor and a descriptor with any other first byte resolve to exactly what the
  generic resolver returns: addresses, flag and error.
\<close>

theorem GetAddressesFromAddrDesc_labels:
  "GetAddressesFromAddrDesc p (0xc1 # rest) = ([''Zeromint''], False, None) \<and>
   GetAddressesFromAddrDesc p (0xc2 # rest) = ([''Zerospend''], False, None) \<and>
   GetAddressesFromAddrDesc p (0xc3 # rest) = ([''Sigmamint''], False, None) \<and>
   GetAddressesFromAddrDesc p (0xc4 # rest) = ([''Sigmaspend''], False, None) \<and>
   (opcode \<in> {0xc1, 0xc2, 0xc3, 0xc4} \<longrightarrow>
      GetAddressesFromAddrDesc (p\<lparr>OutputScriptToAddressesFunc := resolver\<rparr>) (opcode # rest) =
      GetAddressesFromAddrDesc p (opcode # rest)) \<and>
   GetAddressesFromAddrDesc p [] = OutputScriptToAddressesFunc p [] \<and>
   (opcode \<notin> {0xc1, 0xc2, 0xc3, 0xc4} \<longrightarrow>
      GetAddressesFromAddrDesc p (opcode # rest) = OutputScriptToAddressesFunc p (opcode # rest))"
  by (simp add: GetAddressesFromAddrDesc_def OpZeroCoinMint_def OpZeroCoinSpend_def
      OpSigmaMint_def OpSigmaSpend_def)

text \<open>
  Claim C3 on the example parser: a descriptor 0xC3 followed by the start of a standard
  script resolves the same under a resolver that fails, and the standard script alone goes
  to the resolver.
\<close>

theorem GetAddressesFromAddrDesc_labels_witness:
  "GetAddressesFromAddrDesc example_parser [0xc3, 0x76, 0xa9] =
     GetAddressesFromAddrDesc
       (example_parser\<lparr>OutputScriptToAddressesFunc := (\<lambda>addrDesc. ([], False, Some EOF))\<rparr>)
       [0xc3, 0x76, 0xa9] \<and>
   GetAddressesFromAddrDesc example_parser [0x76, 0xa9] = ([''aBcD''], True, None)"
  using GetAddressesFromAddrDesc_labels [where p = example_parser and opcode = "0xc3"
      and rest = "[0x76, 0xa9]" and resolver = "\<lambda>addrDesc. ([], False, Some EOF)"]
    GetAddressesFromAddrDesc_labels [where p = example_parser and opcode = "0x76"
      and rest = "[0xa9]"]
  by (simp add: example_parser_def)

subsection \<open>The block assembler\<close>

lemma makeslice_panics_0: "\<not> makeslice_panics sz 0"
  by (simp add: makeslice_panics_def)

lemma decode_txs_Inr:
  "decode_txs dec k r = Inr (msgs, r') \<Longrightarrow> length msgs = k \<and> (\<exists>n. r' = drop n r)"
proof (induction k arbitrary: r msgs)
  case 0
  then have "length msgs = 0" and "r' = drop 0 r" by simp_all
  then show ?case by blast
next
  case (Suc k)
  from Suc.prems obtain tx n msgs' where
    d: "dec r = Inr (tx, n)" and
    rest: "decode_txs dec k (drop n r) = Inr (msgs', r')" and
    m: "msgs = tx # msgs'"
    by (auto split: sum.splits)
  from Suc.IH [OF rest] obtain n' where "length msgs' = k" and "r' = drop n' (drop n r)"
    by auto
  then have "length msgs = Suc k" and "r' = drop (n' + n) r" using m by simp_all
  then show ?case by blast
qed

lemma decode_txs_first_failure:
  "k < n \<Longrightarrow> decode_txs dec k r = Inr (msgs, r') \<Longrightarrow> dec r' = Inl f \<Longrightarrow>
   decode_txs dec n r = Inl f"
proof (induction k arbitrary: n r msgs)
  case 0
  then obtain n' where "n = Suc n'" by (cases n) auto
  with 0 show ?case by simp
next
  case (Suc k)
  then obtain n' where n: "n = Suc n'" and k: "k < n'" by (cases n) auto
  from Suc.prems(2) obtain tx c msgs' where
    d: "dec r = Inr (tx, c)" and
    rest: "decode_txs dec k (drop c r) = Inr (msgs', r')"
    by (auto split: sum.splits)
  have "decode_txs dec n' (drop c r) = Inl f"
    using Suc.IH [OF k rest Suc.prems(3)] .
  then show ?case using n d by simp
qed

lemma ParseBlock_loop_decode:
  "i \<le> ntx \<Longrightarrow> length txs = ntx \<Longrightarrow>
   ParseBlock_loop p dec ntx i r txs =
     (case decode_txs dec (ntx - i) r of Inl err \<Rightarrow> Inl err
      | Inr (msgs, r') \<Rightarrow>
          Inr (take i txs @ map (\<lambda>tx. fst (parseIndexTx (TxFromMsgTx p tx False))) msgs, r'))"
proof (induction p dec ntx i r txs rule: ParseBlock_loop.induct)
  case (1 p dec ntx i r txs)
  show ?case
  proof (cases "i < ntx")
    case False
    then have "ntx - i = 0" by simp
    then show ?thesis
      using False "1.prems" by (subst ParseBlock_loop.simps) simp
  next
    case True
    then have k: "ntx - i = Suc (ntx - Suc i)" by simp
    show ?thesis
    proof (cases "dec r")
      case (Inl err)
      then show ?thesis using True k by (subst ParseBlock_loop.simps) simp
    next
      case (Inr res)
      obtain tx n where res: "res = (tx, n)" by (cases res)
      let ?btx = "fst (parseIndexTx (TxFromMsgTx p tx False))"
      have IH: "ParseBlock_loop p dec ntx (Suc i) (drop n r) (txs[i := ?btx]) =
          (case decode_txs dec (ntx - Suc i) (drop n r) of Inl err \<Rightarrow> Inl err
           | Inr (msgs, r') \<Rightarrow>
               Inr (take (Suc i) (txs[i := ?btx]) @
                    map (\<lambda>tx. fst (parseIndexTx (TxFromMsgTx p tx False))) msgs, r'))"
        using "1.IH" [OF True Inr [unfolded res] refl refl refl] True "1.prems" by simp
      have t: "take (Suc i) (txs[i := ?btx]) = take i txs @ [?btx]"
        using True "1.prems" by (simp add: take_Suc_conv_app_nth)
      have "ParseBlock_loop p dec ntx i r txs =
          ParseBlock_loop p dec ntx (Suc i) (drop n r) (txs[i := ?btx])"
        using True Inr res by (subst ParseBlock_loop.simps) simp
      then show ?thesis
        unfolding IH t using Inr res k by (simp split: sum.splits)
    qed
  qed
qed

lemma ParseBlock_eq:
  "ParseBlock p dec sz b =
     (case parseBlockHeader b of Inl err \<Rightarrow> Inl err
      | Inr (header, reader1) \<Rightarrow>
     (case ReadVarInt reader1 of Inl err \<Rightarrow> Inl err
      | Inr (ntx, reader2) \<Rightarrow>
          if makeslice_panics sz (unat ntx) then Inl panicmakeslicelen
          else
            (case decode_txs dec (unat ntx) reader2 of Inl err \<Rightarrow> Inl err
             | Inr (msgs, reader3) \<Rightarrow>
                 Inr \<lparr>Size = int (length b), Time = Timestamp header,
                      Txs = map (\<lambda>tx. fst (parseIndexTx (TxFromMsgTx p tx False))) msgs\<rparr>)))"
  by (simp add: ParseBlock_def ParseBlock_loop_decode split: sum.splits prod.splits)

lemma ParseBlock_unread_eq:
  "ParseBlock_unread p dec sz b =
     (case parseBlockHeader b of Inl err \<Rightarrow> None
      | Inr (header, reader1) \<Rightarrow>
     (case ReadVarInt reader1 of Inl err \<Rightarrow> None
      | Inr (ntx, reader2) \<Rightarrow>
          if makeslice_panics sz (unat ntx) then None
          else
            (case decode_txs dec (unat ntx) reader2 of Inl err \<Rightarrow> None
             | Inr (msgs, reader3) \<Rightarrow> Some reader3)))"
  by (simp add: ParseBlock_unread_def ParseBlock_loop_decode split: sum.splits prod.splits)

lemma ParseBlock_Inr:
  assumes "ParseBlock p dec sz b = Inr blk"
  shows "\<exists>h r1 ntx r2 msgs r3.
      parseBlockHeader b = Inr (h, r1) \<and> ReadVarInt r1 = Inr (ntx, r2) \<and>
      \<not> makeslice_panics sz (unat ntx) \<and>
      decode_txs dec (unat ntx) r2 = Inr (msgs, r3) \<and>
      blk = \<lparr>Size = int (length b), Time = Timestamp h,
             Txs = map (\<lambda>tx. fst (parseIndexTx (TxFromMsgTx p tx False))) msgs\<rparr>"
  using assms unfolding ParseBlock_eq
  by (auto split: sum.splits prod.splits if_splits)

lemma ParseBlock_unread_Some:
  assumes "ParseBlock p dec sz b = Inr blk"
  shows "\<exists>n. n \<le> length b \<and> ParseBlock_unread p dec sz b = Some (drop n b)"
proof -
  from ParseBlock_Inr [OF assms] obtain h r1 ntx r2 msgs r3 where
    H: "parseBlockHeader b = Inr (h, r1)" and V: "ReadVarInt r1 = Inr (ntx, r2)" and
    M: "\<not> makeslice_panics sz (unat ntx)" and
    T: "decode_txs dec (unat ntx) r2 = Inr (msgs, r3)"
    by blast
  have "\<exists>n1. r1 = drop n1 b"
  proof (cases "Nonce h = 0")
    case True
    from parseBlockHeader_zero_nonce [OF H True] show ?thesis by blast
  next
    case False
    from parseBlockHeader_nonzero_nonce [OF H False] show ?thesis by blast
  qed
  then obtain n1 where n1: "r1 = drop n1 b" ..
  from ReadVarInt_Inr [OF V] have r2: "r2 = drop (varint_size ntx) r1" by simp
  from decode_txs_Inr [OF T] obtain n3 where r3: "r3 = drop n3 r2" by blast
  have "r3 = drop (n3 + varint_size ntx + n1) b" using n1 r2 r3 by (simp add: add.assoc)
  then have "r3 = drop (min (length b) (n3 + varint_size ntx + n1)) b"
    by (simp add: min_def)
  moreover have "ParseBlock_unread p dec sz b = Some r3"
    using H V M T by (simp add: ParseBlock_unread_eq)
  ultimately show ?thesis
    by (metis min.cobounded1)
qed

lemma ParseBlock_iff:
  "ParseBlock p dec sz b = Inr blk \<longleftrightarrow>
     (\<exists>h r1 ntx r2 msgs r3.
        parseBlockHeader b = Inr (h, r1) \<and> ReadVarInt r1 = Inr (ntx, r2) \<and>
        \<not> makeslice_panics sz (unat ntx) \<and>
        decode_txs dec (unat ntx) r2 = Inr (msgs, r3) \<and>
        blk = \<lparr>Size = int (length b), Time = Timestamp h,
               Txs = map (\<lambda>tx. fst (parseIndexTx (TxFromMsgTx p tx False))) msgs\<rparr>)"
proof
  assume "ParseBlock p dec sz b = Inr blk"
  from ParseBlock_Inr [OF this] show "\<exists>h r1 ntx r2 msgs r3.
        parseBlockHeader b = Inr (h, r1) \<and> ReadVarInt r1 = Inr (ntx, r2) \<and>
        \<not> makeslice_panics sz (unat ntx) \<and>
        decode_txs dec (unat ntx) r2 = Inr (msgs, r3) \<and>
        blk = \<lparr>Size = int (length b), Time = Timestamp h,
               Txs = map (\<lambda>tx. fst (parseIndexTx (TxFromMsgTx p tx False))) msgs\<rparr>" .
next
  assume "\<exists>h r1 ntx r2 msgs r3.
        parseBlockHeader b = Inr (h, r1) \<and> ReadVarInt r1 = Inr (ntx, r2) \<and>
        \<not> makeslice_panics sz (unat ntx) \<and>
        decode_txs dec (unat ntx) r2 = Inr (msgs, r3) \<and>
        blk = \<lparr>Size = int (length b), Time = Timestamp h,
               Txs = map (\<lambda>tx. fst (parseIndexTx (TxFromMsgTx p tx False))) msgs\<rparr>"
  then show "ParseBlock p dec sz b = Inr blk"
    by (auto simp: ParseBlock_eq)
qed

text \<open>
  Claim C5: a buffer decodes to a block exactly when its header decodes, then the
  transaction count, then (the slice for them allocated) that many transactions one after
  the other from the stream; the block then holds each of them normalized, in stream order
  and as many as the count says, the length of the whole buffer as its size and the time of
  the header. In particular a header with nonce 0 (76 bytes and the four zero bytes of the
  nonce), the trailer length 3, three trailer bytes and the count 0 decode to a block of
  size 85 with no transaction and the time of the header.
\<close>

theorem ParseBlock_result:
  "(ParseBlock p dec sz b = Inr blk \<longleftrightarrow>
      (\<exists>h r1 ntx r2 msgs r3.
         parseBlockHeader b = Inr (h, r1) \<and> ReadVarInt r1 = Inr (ntx, r2) \<and>
         \<not> makeslice_panics sz (unat ntx) \<and>
         decode_txs dec (unat ntx) r2 = Inr (msgs, r3) \<and>
         length msgs = unat ntx \<and>
         blk = \<lparr>Size = int (length b), Time = Timestamp h,
                Txs = map (\<lambda>tx. fst (parseIndexTx (TxFromMsgTx p tx False))) msgs\<rparr>)) \<and>
   (length hdr = 76 \<longrightarrow>
      ParseBlock p dec sz (hdr @ [0, 0, 0, 0] @ [3, t1, t2, t3] @ [0]) =
        Inr \<lparr>Size = 85, Time = Timestamp (header_of (hdr @ [0, 0, 0, 0])), Txs = []\<rparr>)"
proof (intro conjI impI)
  show "ParseBlock p dec sz b = Inr blk \<longleftrightarrow>
      (\<exists>h r1 ntx r2 msgs r3.
         parseBlockHeader b = Inr (h, r1) \<and> ReadVarInt r1 = Inr (ntx, r2) \<and>
         \<not> makeslice_panics sz (unat ntx) \<and>
         decode_txs dec (unat ntx) r2 = Inr (msgs, r3) \<and>
         length msgs = unat ntx \<and>
         blk = \<lparr>Size = int (length b), Time = Timestamp h,
                Txs = map (\<lambda>tx. fst (parseIndexTx (TxFromMsgTx p tx False))) msgs\<rparr>)"
    unfolding ParseBlock_iff using decode_txs_Inr by blast
next
  assume len: "length hdr = 76"
  show "ParseBlock p dec sz (hdr @ [0, 0, 0, 0] @ [3, t1, t2, t3] @ [0]) =
        Inr \<lparr>Size = 85, Time = Timestamp (header_of (hdr @ [0, 0, 0, 0])), Txs = []\<rparr>"
    unfolding ParseBlock_eq parseBlockHeader_pos_3 [OF len]
    using len by (simp add: ReadVarInt_0 makeslice_panics_0)
qed

lemma decode_txs_example:
  "decode_txs example_decoder (unat (2 :: 64 word)) [0, 1, 0xaa] = Inr ([[], [0xaa]], [])"
proof -
  have u: "unat (2 :: 64 word) = Suc (Suc 0)" by simp
  show ?thesis unfolding u by (simp add: example_decoder_def)
qed

lemma parseIndexTx_example_spend:
  "fst (parseIndexTx (TxFromMsgTx example_parser [] False)) =
     zero_Tx\<lparr>Tx_Vin := [example_spend_vin\<lparr>Coinbase := SpendTxID, Txid := [],
                                            Sequence := 0, Vout := 0\<rparr>]\<rparr>"
  by (simp add: parseIndexTx_map example_parser_def zero_Tx_def parseIndexTx_body_def
      example_spend_vin_def)

lemma parseIndexTx_example_plain:
  "fst (parseIndexTx (TxFromMsgTx example_parser [0xaa] False)) =
     zero_Tx\<lparr>Tx_Version := 1, Tx_Vin := [example_plain_vin]\<rparr>"
  by (simp add: parseIndexTx_map example_parser_def zero_Tx_def parseIndexTx_body_def
      example_plain_vin_def SpendTxID_def)

text \<open>
  Claim C5 on the examples: a header, the count 2, a spend transaction and a plain one
  decode to a block of size 84 with the two transactions in this order, the first
  normalized; the proof-of-stake header, a trailer of three bytes and the count 0 decode to
  a block of size 85.
\<close>

theorem ParseBlock_result_witness:
  "ParseBlock example_parser example_decoder 128 (example_pow_header @ [2, 0, 1, 0xaa]) =
     Inr \<lparr>Size = 84, Time = 1414776286,
          Txs = [zero_Tx\<lparr>Tx_Vin := [example_spend_vin\<lparr>Coinbase := SpendTxID, Txid := [],
                                                      Sequence := 0, Vout := 0\<rparr>]\<rparr>,
                 zero_Tx\<lparr>Tx_Version := 1, Tx_Vin := [example_plain_vin]\<rparr>]\<rparr> \<and>
   ParseBlock example_parser example_decoder 128
     (example_pos_header @ [3, 0x30, 0x44, 0x02] @ [0]) =
     Inr \<lparr>Size = 85, Time = 1414776286, Txs = []\<rparr>"
proof -
  note T = ParseBlock_result [where p = example_parser and dec = example_decoder and sz = 128]
  let ?b = "example_pow_header @ [2, 0, 1, 0xaa]"
  let ?blk = "\<lparr>Size = 84, Time = 1414776286,
          Txs = [zero_Tx\<lparr>Tx_Vin := [example_spend_vin\<lparr>Coinbase := SpendTxID, Txid := [],
                                                      Sequence := 0, Vout := 0\<rparr>]\<rparr>,
                 zero_Tx\<lparr>Tx_Version := 1, Tx_Vin := [example_plain_vin]\<rparr>]\<rparr>"
  have H: "parseBlockHeader ?b = Inr (header_of example_pow_header, [2, 0, 1, 0xaa])"
    by (rule parseBlockHeader_example_pow)
  have V: "ReadVarInt [2, 0, 1, 0xaa] = Inr (2, [0, 1, 0xaa])"
    using ReadVarInt_small [of 2 "[0, 1, 0xaa]"] by simp
  have M: "\<not> makeslice_panics 128 (unat (2 :: 64 word))"
    by (simp add: makeslice_panics_def maxAlloc_def)
  have L: "length [[], [0xaa :: byte]] = unat (2 :: 64 word)" by simp
  have B: "?blk = \<lparr>Size = int (length ?b), Time = Timestamp (header_of example_pow_header),
      Txs = map (\<lambda>tx. fst (parseIndexTx (TxFromMsgTx example_parser tx False))) [[], [0xaa]]\<rparr>"
    by (simp add: example_pow_header_length Timestamp_example_pow_header
        parseIndexTx_example_spend parseIndexTx_example_plain)
  have 1: "ParseBlock example_parser example_decoder 128 ?b = Inr ?blk"
    by (rule T [where b = ?b and blk = ?blk, THEN conjunct1, THEN iffD2])
       (intro exI conjI; (rule H V M decode_txs_example L B))
  let ?hdr = "replicate 68 0 @ [0xde, 0xc5, 0x53, 0x54] @ [0xff, 0xff, 0x00, 0x1d] :: byte list"
  have len: "length ?hdr = 76" by simp
  have b: "?hdr @ [0, 0, 0, 0] @ [3, 0x30, 0x44, 0x02] @ [0] =
      example_pos_header @ [3, 0x30, 0x44, 0x02] @ [0]"
    by (simp add: example_pos_header_def)
  have h: "?hdr @ [0, 0, 0, 0] = example_pos_header"
    by (simp add: example_pos_header_def)
  have 2: "ParseBlock example_parser example_decoder 128
     (example_pos_header @ [3, 0x30, 0x44, 0x02] @ [0]) =
     Inr \<lparr>Size = 85, Time = 1414776286, Txs = []\<rparr>"
    using T [where hdr = ?hdr and ?t1.0 = "0x30" and ?t2.0 = "0x44" and ?t3.0 = "0x02",
        THEN conjunct2, rule_format, OF len]
    unfolding b h Timestamp_example_pos_header .
  from 1 2 show ?thesis by (rule conjI)
qed

text \<open>
  Claim C6, as stated, fails: a header, the count 0 and one more byte decode to a block,
  and the byte is left unread.
\<close>

theorem ParseBlock_leaves_bytes_unread:
  "ParseBlock example_parser example_decoder 128 (example_pow_header @ [0] @ [0xaa]) =
     Inr \<lparr>Size = 82, Time = 1414776286, Txs = []\<rparr> \<and>
   ParseBlock_unread example_parser example_decoder 128 (example_pow_header @ [0] @ [0xaa]) =
     Some [0xaa]"
proof -
  have H: "parseBlockHeader (example_pow_header @ [0] @ [0xaa]) =
      Inr (header_of example_pow_header, [0] @ [0xaa])"
    by (rule parseBlockHeader_example_pow)
  show ?thesis
    unfolding ParseBlock_eq ParseBlock_unread_eq H
    by (simp add: ReadVarInt_0 makeslice_panics_0 example_pow_header_length
        Timestamp_example_pow_header)
qed

lemma decode_txs_extend:
  assumes "self_delimiting dec"
  shows "decode_txs dec k r = Inr (msgs, r') \<Longrightarrow>
         decode_txs dec k (r @ extra) = Inr (msgs, r' @ extra)"
proof (induction k arbitrary: r msgs)
  case 0
  then show ?case by simp
next
  case (Suc k)
  from Suc.prems obtain tx n msgs' where
    d: "dec r = Inr (tx, n)" and
    rest: "decode_txs dec k (drop n r) = Inr (msgs', r')" and
    m: "msgs = tx # msgs'"
    by (auto split: sum.splits)
  from assms d have n: "n \<le> length r" and d': "dec (r @ extra) = Inr (tx, n)"
    unfolding self_delimiting_def by blast+
  have "drop n (r @ extra) = drop n r @ extra" using n by simp
  then show ?case using d' Suc.IH [OF rest] m by simp
qed

lemma self_delimiting_example_decoder: "self_delimiting example_decoder"
  unfolding self_delimiting_def example_decoder_def
  by (auto split: list.splits if_splits simp: nth_append)

lemma ParseBlock_unread_iff:
  "ParseBlock_unread p dec sz b = Some unread \<longleftrightarrow>
     (\<exists>h r1 ntx r2 msgs.
        parseBlockHeader b = Inr (h, r1) \<and> ReadVarInt r1 = Inr (ntx, r2) \<and>
        \<not> makeslice_panics sz (unat ntx) \<and>
        decode_txs dec (unat ntx) r2 = Inr (msgs, unread))"
  unfolding ParseBlock_unread_eq
  by (auto split: sum.splits prod.splits if_splits)

lemma ParseBlock_extend:
  assumes sd: "self_delimiting dec" and ok: "ParseBlock p dec sz b = Inr blk"
  shows "ParseBlock p dec sz (b @ extra) =
           Inr (blk\<lparr>Size := int (length b) + int (length extra)\<rparr>) \<and>
         (\<exists>unread. ParseBlock_unread p dec sz b = Some unread \<and>
            ParseBlock_unread p dec sz (b @ extra) = Some (unread @ extra))"
proof -
  from ok [unfolded ParseBlock_iff] obtain h r1 ntx r2 msgs r3 where
    H: "parseBlockHeader b = Inr (h, r1)" and V: "ReadVarInt r1 = Inr (ntx, r2)" and
    M: "\<not> makeslice_panics sz (unat ntx)" and
    T: "decode_txs dec (unat ntx) r2 = Inr (msgs, r3)" and
    B: "blk = \<lparr>Size = int (length b), Time = Timestamp h,
             Txs = map (\<lambda>tx. fst (parseIndexTx (TxFromMsgTx p tx False))) msgs\<rparr>"
    by blast
  note H' = parseBlockHeader_extend [OF H, of extra]
  note V' = ReadVarInt_extend [OF V, of extra]
  note T' = decode_txs_extend [OF sd T, of extra]
  have "ParseBlock p dec sz (b @ extra) =
      Inr \<lparr>Size = int (length (b @ extra)), Time = Timestamp h,
           Txs = map (\<lambda>tx. fst (parseIndexTx (TxFromMsgTx p tx False))) msgs\<rparr>"
    unfolding ParseBlock_iff using H' V' M T' by blast
  then have 1: "ParseBlock p dec sz (b @ extra) =
           Inr (blk\<lparr>Size := int (length b) + int (length extra)\<rparr>)"
    using B by simp
  have "ParseBlock_unread p dec sz b = Some r3"
    unfolding ParseBlock_unread_iff using H V M T by blast
  moreover have "ParseBlock_unread p dec sz (b @ extra) = Some (r3 @ extra)"
    unfolding ParseBlock_unread_iff using H' V' M T' by blast
  ultimately show ?thesis using 1 by blast
qed

text \<open>
  Claim C6, amended: a block decode call returns a block or fails; a buffer that decodes
  to a block has been read from its start through the header, the transaction count and
  the declared transactions: what the reader has not read is what is left after them, and
  it is counted in the size. For a transaction decoder that consumes exactly the encoded
  length of each transaction, as the spec has it, any bytes appended to such a buffer are
  left unread too: the call returns the same block but for its size. After a header with a
  nonzero nonce and the count 0 that holds for every decoder.
\<close>

theorem ParseBlock_reads_prefix:
  "(ParseBlock p dec sz b = Inr blk \<longrightarrow>
      (\<exists>h r1 ntx r2 msgs r3.
         parseBlockHeader b = Inr (h, r1) \<and> ReadVarInt r1 = Inr (ntx, r2) \<and>
         decode_txs dec (unat ntx) r2 = Inr (msgs, r3) \<and>
         ParseBlock_unread p dec sz b = Some r3 \<and>
         (\<exists>n \<le> length b. r3 = drop n b) \<and>
         Size blk = int (length b))) \<and>
   (ParseBlock p dec sz b = Inl f \<longrightarrow> ParseBlock_unread p dec sz b = None) \<and>
   (self_delimiting dec \<and> ParseBlock p dec sz b = Inr blk \<longrightarrow>
      ParseBlock p dec sz (b @ extra) =
        Inr (blk\<lparr>Size := int (length b) + int (length extra)\<rparr>) \<and>
      (\<exists>unread. ParseBlock_unread p dec sz b = Some unread \<and>
         ParseBlock_unread p dec sz (b @ extra) = Some (unread @ extra))) \<and>
   (length hdr = 80 \<and> Nonce (header_of hdr) \<noteq> 0 \<longrightarrow>
      ParseBlock p dec sz (hdr @ [0] @ extra) =
        Inr \<lparr>Size = 81 + int (length extra), Time = Timestamp (header_of hdr), Txs = []\<rparr> \<and>
      ParseBlock_unread p dec sz (hdr @ [0] @ extra) = Some extra)"
proof (intro conjI impI)
  assume a: "ParseBlock p dec sz b = Inr blk"
  from a [unfolded ParseBlock_iff] obtain h r1 ntx r2 msgs r3 where
    H: "parseBlockHeader b = Inr (h, r1)" and V: "ReadVarInt r1 = Inr (ntx, r2)" and
    M: "\<not> makeslice_panics sz (unat ntx)" and
    T: "decode_txs dec (unat ntx) r2 = Inr (msgs, r3)" and
    B: "blk = \<lparr>Size = int (length b), Time = Timestamp h,
             Txs = map (\<lambda>tx. fst (parseIndexTx (TxFromMsgTx p tx False))) msgs\<rparr>"
    by blast
  have U: "ParseBlock_unread p dec sz b = Some r3"
    unfolding ParseBlock_unread_iff using H V M T by blast
  from ParseBlock_unread_Some [OF a] U have S: "\<exists>n \<le> length b. r3 = drop n b" by auto
  have "Size blk = int (length b)" using B by simp
  with H V T U S show "\<exists>h r1 ntx r2 msgs r3.
         parseBlockHeader b = Inr (h, r1) \<and> ReadVarInt r1 = Inr (ntx, r2) \<and>
         decode_txs dec (unat ntx) r2 = Inr (msgs, r3) \<and>
         ParseBlock_unread p dec sz b = Some r3 \<and>
         (\<exists>n \<le> length b. r3 = drop n b) \<and>
         Size blk = int (length b)"
    by blast
next
  assume "ParseBlock p dec sz b = Inl f"
  then show "ParseBlock_unread p dec sz b = None"
    unfolding ParseBlock_eq ParseBlock_unread_eq
    by (auto split: sum.splits prod.splits if_splits)
next
  assume a: "self_delimiting dec \<and> ParseBlock p dec sz b = Inr blk"
  then have sd: "self_delimiting dec" and ok: "ParseBlock p dec sz b = Inr blk" by simp_all
  note E = ParseBlock_extend [OF sd ok, of extra]
  from E show "ParseBlock p dec sz (b @ extra) =
        Inr (blk\<lparr>Size := int (length b) + int (length extra)\<rparr>)" by (rule conjunct1)
  from E show "\<exists>unread. ParseBlock_unread p dec sz b = Some unread \<and>
         ParseBlock_unread p dec sz (b @ extra) = Some (unread @ extra)" by (rule conjunct2)
next
  assume a: "length hdr = 80 \<and> Nonce (header_of hdr) \<noteq> 0"
  then have H: "parseBlockHeader (hdr @ [0] @ extra) = Inr (header_of hdr, [0] @ extra)"
    by (simp add: parseBlockHeader_pow)
  show "ParseBlock p dec sz (hdr @ [0] @ extra) =
        Inr \<lparr>Size = 81 + int (length extra), Time = Timestamp (header_of hdr), Txs = []\<rparr>"
    unfolding ParseBlock_eq H using a by (simp add: ReadVarInt_0 makeslice_panics_0)
  show "ParseBlock_unread p dec sz (hdr @ [0] @ extra) = Some extra"
    unfolding ParseBlock_unread_eq H by (simp add: ReadVarInt_0 makeslice_panics_0)
qed

lemma decode_txs_example_1:
  "decode_txs example_decoder (unat (1 :: 64 word)) [1, 0xaa] = Inr ([[0xaa]], [])"
  by (simp add: example_decoder_def)

text \<open>
  Claim C6, amended, on the example: two bytes after a block of one transaction are left
  unread, a buffer that ends after the header gives no block, and two bytes after an empty
  block are left unread.
\<close>

theorem ParseBlock_reads_prefix_witness:
  "ParseBlock example_parser example_decoder 128
     (example_pow_header @ [1, 1, 0xaa] @ [0xbb, 0xcc]) =
     Inr \<lparr>Size = 85, Time = 1414776286,
          Txs = [zero_Tx\<lparr>Tx_Version := 1, Tx_Vin := [example_plain_vin]\<rparr>]\<rparr> \<and>
   ParseBlock_unread example_parser example_decoder 128
     (example_pow_header @ [1, 1, 0xaa] @ [0xbb, 0xcc]) = Some [0xbb, 0xcc] \<and>
   ParseBlock_unread example_parser example_decoder 128 example_pow_header = None \<and>
   ParseBlock_unread example_parser example_decoder 128
     (example_pow_header @ [0] @ [0xaa, 0xbb]) = Some [0xaa, 0xbb]"
proof -
  note T = ParseBlock_reads_prefix [where p = example_parser and dec = example_decoder and sz = 128]
  let ?b = "example_pow_header @ [1, 1, 0xaa]"
  let ?blk = "\<lparr>Size = 83, Time = 1414776286,
          Txs = [zero_Tx\<lparr>Tx_Version := 1, Tx_Vin := [example_plain_vin]\<rparr>]\<rparr>"
  have H: "parseBlockHeader ?b = Inr (header_of example_pow_header, [1, 1, 0xaa])"
    by (rule parseBlockHeader_example_pow)
  have V: "ReadVarInt [1, 1, 0xaa] = Inr (1, [1, 0xaa])"
    using ReadVarInt_small [of 1 "[1, 0xaa]"] by simp
  have M: "\<not> makeslice_panics 128 (unat (1 :: 64 word))"
    by (simp add: makeslice_panics_def maxAlloc_def)
  have B: "?blk = \<lparr>Size = int (length ?b), Time = Timestamp (header_of example_pow_header),
      Txs = map (\<lambda>tx. fst (parseIndexTx (TxFromMsgTx example_parser tx False))) [[0xaa]]\<rparr>"
    by (simp add: example_pow_header_length Timestamp_example_pow_header
        parseIndexTx_example_plain)
  have P: "ParseBlock example_parser example_decoder 128 ?b = Inr ?blk"
    unfolding ParseBlock_iff
    by (intro exI conjI; (rule H V M decode_txs_example_1 B))
  have U: "ParseBlock_unread example_parser example_decoder 128 ?b = Some []"
    unfolding ParseBlock_unread_iff
    by (intro exI conjI; (rule H V M decode_txs_example_1))
  note 3 = T [where b = ?b and blk = ?blk and extra = "[0xbb, 0xcc]",
      THEN conjunct2, THEN conjunct2, THEN conjunct1, rule_format,
      OF conjI [OF self_delimiting_example_decoder P]]
  have 1: "ParseBlock example_parser example_decoder 128 (?b @ [0xbb, 0xcc]) =
      Inr \<lparr>Size = 85, Time = 1414776286,
          Txs = [zero_Tx\<lparr>Tx_Version := 1, Tx_Vin := [example_plain_vin]\<rparr>]\<rparr>"
    using 3 [THEN conjunct1] by (simp add: example_pow_header_length)
  have 2: "ParseBlock_unread example_parser example_decoder 128 (?b @ [0xbb, 0xcc]) =
      Some [0xbb, 0xcc]"
    using 3 [THEN conjunct2] U by auto
  have F: "ParseBlock example_parser example_decoder 128 example_pow_header = Inl (Err EOF)"
    using parseBlockHeader_example_pow [of "[]"] by (simp add: ParseBlock_eq ReadVarInt_Nil)
  note 4 = T [where b = example_pow_header, THEN conjunct2, THEN conjunct1, rule_format, OF F]
  have a: "length example_pow_header = 80 \<and> Nonce (header_of example_pow_header) \<noteq> 0"
    by (simp add: example_pow_header_length Nonce_example_pow_header)
  note 5 = T [where hdr = example_pow_header and extra = "[0xaa, 0xbb]",
      THEN conjunct2, THEN conjunct2, THEN conjunct2, rule_format, OF a, THEN conjunct2]
  from 1 2 4 5 show ?thesis by simp
qed

lemma ParseBlock_propagates_failure:
  "(parseBlockHeader b = Inl f \<longrightarrow> ParseBlock p dec sz b = Inl f) \<and>
   (parseBlockHeader b = Inr (h, r1) \<and> ReadVarInt r1 = Inl f \<longrightarrow>
      ParseBlock p dec sz b = Inl f) \<and>
   (parseBlockHeader b = Inr (h, r1) \<and> ReadVarInt r1 = Inr (ntx, r2) \<and>
    \<not> makeslice_panics sz (unat ntx) \<and>
    k < unat ntx \<and> decode_txs dec k r2 = Inr (msgs, r3) \<and> dec r3 = Inl f \<longrightarrow>
      ParseBlock p dec sz b = Inl f)"
proof (intro conjI impI)
  assume "parseBlockHeader b = Inl f"
  then show "ParseBlock p dec sz b = Inl f" by (simp add: ParseBlock_eq)
next
  assume "parseBlockHeader b = Inr (h, r1) \<and> ReadVarInt r1 = Inl f"
  then show "ParseBlock p dec sz b = Inl f" by (simp add: ParseBlock_eq)
next
  assume a: "parseBlockHeader b = Inr (h, r1) \<and> ReadVarInt r1 = Inr (ntx, r2) \<and>
    \<not> makeslice_panics sz (unat ntx) \<and>
    k < unat ntx \<and> decode_txs dec k r2 = Inr (msgs, r3) \<and> dec r3 = Inl f"
  then have "decode_txs dec (unat ntx) r2 = Inl f"
    using decode_txs_first_failure [of k "unat ntx" dec r2 msgs r3 f] by simp
  with a show "ParseBlock p dec sz b = Inl f" by (simp add: ParseBlock_eq)
qed

text \<open>
  Claim C8 fails on a header followed by the transaction count 2^64 - 1 and nothing else:
  the first transaction cannot be decoded, and \<^verbatim>\<open>make([]bchain.Tx, ntx)\<close> panics before the
  decoder is called, where the claim has the decoder's error returned. (For a count whose
  slice the runtime can allocate the claim holds: the lemma \<open>ParseBlock_propagates_failure\<close>
  above.)
\<close>

theorem ParseBlock_oversized_count_panics:
  "parseBlockHeader (example_pow_header @ replicate 9 0xff) =
     Inr (header_of example_pow_header, replicate 9 0xff) \<and>
   ReadVarInt (replicate 9 0xff) = Inr (0xffffffffffffffff, []) \<and>
   example_decoder [] = Inl (Err EOF) \<and>
   ParseBlock example_parser example_decoder 128 (example_pow_header @ replicate 9 0xff) =
     Inl panicmakeslicelen"
proof -
  have H: "parseBlockHeader (example_pow_header @ replicate 9 0xff) =
     Inr (header_of example_pow_header, replicate 9 0xff)"
    by (rule parseBlockHeader_example_pow)
  have M: "makeslice_panics 128 (unat (0xffffffffffffffff :: 64 word))"
    by (simp add: makeslice_panics_def maxAlloc_def)
  have D: "example_decoder [] = Inl (Err EOF)" by (simp add: example_decoder_def)
  have P: "ParseBlock example_parser example_decoder 128
      (example_pow_header @ replicate 9 0xff) = Inl panicmakeslicelen"
    unfolding ParseBlock_eq H using M by (simp add: ReadVarInt_max)
  from H ReadVarInt_max D P show ?thesis by (intro conjI)
qed

subsection \<open>The JSON importer\<close>












end
